theory Spec2Isabelle
  imports Complex_Main "HOL-Library.Multiset" "HOL-Library.Sublist"
begin

section \<open>The RAG support layer of the Sagan dashboard backend (server.js)\<close>

text \<open>
  The development embeds the retrieval core of \<^verbatim>\<open>src/server.js\<close>: the keyword
  fallback embedding, cosine scoring, sentence chunking, the ranked query over the
  in-memory document store, the cascade delete of a training example and the two
  settings handlers. The file holds two copies of the server; the functions modelled
  here are textually the same in both, and \<^verbatim>\<open>/admin/rag-settings\<close> exists in the
  second copy only.
\<close>

subsection \<open>JavaScript numbers\<close>

text \<open>
  A JavaScript number is an IEEE double. The model keeps the special values and their
  arithmetic (\<open>NaN\<close> is contagious, \<open>0/0\<close>, \<open>\<infinity> - \<infinity>\<close> and \<open>0 * \<infinity>\<close> are \<open>NaN\<close>,
  every comparison with \<open>NaN\<close> is false) and takes a finite value as the real number it
  denotes: rounding, overflow and underflow of finite arithmetic are not modelled, and
  the two zeros are one value.
\<close>

datatype number = NaN | NegInf | Fin real | PosInf

fun num_neg :: "number \<Rightarrow> number" where
  "num_neg NaN = NaN"
| "num_neg NegInf = PosInf"
| "num_neg (Fin a) = Fin (- a)"
| "num_neg PosInf = NegInf"

fun num_add :: "number \<Rightarrow> number \<Rightarrow> number" where
  "num_add (Fin a) (Fin b) = Fin (a + b)"
| "num_add NaN y = NaN"
| "num_add x NaN = NaN"
| "num_add PosInf NegInf = NaN"
| "num_add NegInf PosInf = NaN"
| "num_add PosInf y = PosInf"
| "num_add x PosInf = PosInf"
| "num_add NegInf y = NegInf"
| "num_add x NegInf = NegInf"

definition num_sub :: "number \<Rightarrow> number \<Rightarrow> number" where
  "num_sub x y = num_add x (num_neg y)"

text \<open>The sign of a number that is not \<open>NaN\<close>: \<open>-1\<close>, \<open>0\<close> or \<open>1\<close>.\<close>

fun num_sgn :: "number \<Rightarrow> int" where
  "num_sgn NaN = 0"
| "num_sgn NegInf = - 1"
| "num_sgn (Fin a) = (if a < 0 then - 1 else if a = 0 then 0 else 1)"
| "num_sgn PosInf = 1"

definition signed_inf :: "int \<Rightarrow> number" where
  "signed_inf s = (if s = 0 then NaN else if s < 0 then NegInf else PosInf)"

fun num_mul :: "number \<Rightarrow> number \<Rightarrow> number" where
  "num_mul (Fin a) (Fin b) = Fin (a * b)"
| "num_mul NaN y = NaN"
| "num_mul x NaN = NaN"
| "num_mul x y = signed_inf (num_sgn x * num_sgn y)"

fun num_div :: "number \<Rightarrow> number \<Rightarrow> number" where
  "num_div NaN y = NaN"
| "num_div x NaN = NaN"
| "num_div (Fin a) (Fin b) = (if b = 0 then signed_inf (num_sgn (Fin a)) else Fin (a / b))"
| "num_div (Fin a) y = Fin 0"
| "num_div x (Fin b) = signed_inf (num_sgn x * (if b < 0 then - 1 else 1))"
| "num_div x y = NaN"

text \<open>\<^verbatim>\<open>Math.sqrt\<close>: \<open>NaN\<close> below zero.\<close>

fun num_sqrt :: "number \<Rightarrow> number" where
  "num_sqrt NaN = NaN"
| "num_sqrt NegInf = NaN"
| "num_sqrt (Fin a) = (if a < 0 then NaN else Fin (sqrt a))"
| "num_sqrt PosInf = PosInf"

text \<open>The relational operators \<^verbatim>\<open><\<close>, \<^verbatim>\<open>>\<close> and \<^verbatim>\<open>>=\<close> on numbers.\<close>

fun num_lt :: "number \<Rightarrow> number \<Rightarrow> bool" where
  "num_lt NaN y = False"
| "num_lt x NaN = False"
| "num_lt (Fin a) (Fin b) = (a < b)"
| "num_lt PosInf y = False"
| "num_lt x PosInf = True"
| "num_lt x NegInf = False"
| "num_lt NegInf y = True"

definition num_gt :: "number \<Rightarrow> number \<Rightarrow> bool" where
  "num_gt x y = num_lt y x"

definition num_ge :: "number \<Rightarrow> number \<Rightarrow> bool" where
  "num_ge x y = (x \<noteq> NaN \<and> y \<noteq> NaN \<and> \<not> num_lt x y)"

definition of_length :: "'a list \<Rightarrow> number" where
  "of_length xs = Fin (real (length xs))"

subsection \<open>Cosine similarity\<close>

text \<open>
  \<^verbatim>\<open>calculateSimilarity\<close> (lines 105-119): \<open>0\<close> on a length mismatch, otherwise one loop
  over the indices that accumulates the dot product and the two squared norms, and the
  quotient at the end; nothing guards a zero denominator.
\<close>

definition similarityStep ::
  "number list \<Rightarrow> number list \<Rightarrow> number \<times> number \<times> number \<Rightarrow> nat \<Rightarrow> number \<times> number \<times> number" where
  "similarityStep vector1 vector2 acc i =
     (case acc of (dotProduct, norm1, norm2) \<Rightarrow>
        (num_add dotProduct (num_mul (vector1 ! i) (vector2 ! i)),
         num_add norm1 (num_mul (vector1 ! i) (vector1 ! i)),
         num_add norm2 (num_mul (vector2 ! i) (vector2 ! i))))"

definition similarityLoop :: "number list \<Rightarrow> number list \<Rightarrow> nat \<Rightarrow> number \<times> number \<times> number" where
  "similarityLoop vector1 vector2 n =
     foldl (similarityStep vector1 vector2) (Fin 0, Fin 0, Fin 0) [0..<n]"

definition calculateSimilarity :: "number list \<Rightarrow> number list \<Rightarrow> number" where
  "calculateSimilarity vector1 vector2 =
     (if length vector1 \<noteq> length vector2 then Fin 0
      else case similarityLoop vector1 vector2 (length vector1) of
        (dotProduct, norm1, norm2) \<Rightarrow>
          num_div dotProduct (num_mul (num_sqrt norm1) (num_sqrt norm2)))"

subsection \<open>Strings\<close>

text \<open>
  A text is a list of characters, a character being a code unit below 256 (the Latin-1
  range of a JavaScript string); \<^verbatim>\<open>length\<close> counts code units as \<^verbatim>\<open>.length\<close> does.
  White space is what \<^verbatim>\<open>trim\<close> strips in that range: tab, line feed, vertical tab,
  form feed, carriage return, space and the no-break space.
\<close>

definition isWhiteSpace :: "char \<Rightarrow> bool" where
  "isWhiteSpace c = (of_char c \<in> {9, 10, 11, 12, 13, 32, 160 :: nat})"

definition trimStart :: "string \<Rightarrow> string" where
  "trimStart s = dropWhile isWhiteSpace s"

definition trimEnd :: "string \<Rightarrow> string" where
  "trimEnd s = rev (dropWhile isWhiteSpace (rev s))"

definition trim :: "string \<Rightarrow> string" where
  "trim s = trimEnd (trimStart s)"

text \<open>
  \<^verbatim>\<open>toLowerCase\<close> in the Latin-1 range: the letters A-Z and the accented capitals
  \<open>0xC0\<close>-\<open>0xDE\<close> (the multiplication sign \<open>0xD7\<close> apart) move up by 32.
\<close>

definition lowerChar :: "char \<Rightarrow> char" where
  "lowerChar c =
     (let n = (of_char c :: nat)
      in if (65 \<le> n \<and> n \<le> 90) \<or> (192 \<le> n \<and> n \<le> 222 \<and> n \<noteq> 215)
         then char_of (n + 32) else c)"

definition toLowerCase :: "string \<Rightarrow> string" where
  "toLowerCase s = map lowerChar s"

text \<open>
  \<^verbatim>\<open>text.split(/[.!?]+/)\<close>: the pieces between maximal runs of sentence terminators,
  the empty pieces at either end included.
\<close>

definition isTerminator :: "char \<Rightarrow> bool" where
  "isTerminator c = (c = CHR ''.'' \<or> c = CHR ''!'' \<or> c = CHR ''?'')"

function splitTerminators :: "string \<Rightarrow> string list" where
  "splitTerminators s =
     (let piece = takeWhile (\<lambda>c. \<not> isTerminator c) s;
          rest = dropWhile (\<lambda>c. \<not> isTerminator c) s
      in if rest = [] then [piece]
         else piece # splitTerminators (dropWhile isTerminator rest))"
  by pat_completeness auto
termination
proof (relation "measure length")
  show "wf (measure length)" by simp
next
  fix s :: string and piece rest
  assume r: "rest = dropWhile (\<lambda>c. \<not> isTerminator c) s" and ne: "rest \<noteq> []"
  from ne obtain c cs where rc: "rest = c # cs" by (cases rest) auto
  have "length (dropWhile isTerminator rest) \<le> length rest"
    by (rule length_dropWhile_le)
  moreover have "isTerminator c"
  proof -
    have "dropWhile (\<lambda>c. \<not> isTerminator c) s \<noteq> []" using r ne by simp
    from hd_dropWhile [OF this] show ?thesis using r rc by (metis list.sel(1))
  qed
  then have "length (dropWhile isTerminator rest) < length rest"
    using rc length_dropWhile_le [of isTerminator cs] by simp
  moreover have "length rest \<le> length s"
    unfolding r by (rule length_dropWhile_le)
  ultimately show "(dropWhile isTerminator rest, s) \<in> measure length" by simp
qed

text \<open>
  \<^verbatim>\<open>(lowerText.match(new RegExp(keyword, 'g')) || []).length\<close> for a pattern of plain
  letters: the matches are found from left to right and the search resumes after the
  end of each match, so matches never overlap; \<^verbatim>\<open>null\<close> (no match) counts as 0. The
  empty pattern matches once at every index.
\<close>

function matchCount :: "string \<Rightarrow> string \<Rightarrow> nat" where
  "matchCount keyword s =
     (if keyword = [] then Suc (length s)
      else if s = [] then 0
      else if prefix keyword s then Suc (matchCount keyword (drop (length keyword) s))
      else matchCount keyword (tl s))"
  by pat_completeness auto
termination
  by (relation "measure (\<lambda>(keyword, s). length s)") (auto simp: Suc_le_eq)

declare splitTerminators.simps [simp del]
declare matchCount.simps [simp del]

subsection \<open>Embedding provider\<close>

text \<open>The vocabulary of \<^verbatim>\<open>generateKeywordVector\<close> (the local array \<^verbatim>\<open>keywords\<close>,
  lines 92-97), in its order.\<close>

definition keywordList :: "string list" where
  "keywordList =
     [''market'', ''treatment'', ''physician'', ''academic'', ''community'', ''region'',
      ''adoption'', ''preference'', ''efficacy'', ''safety'', ''compliance'', ''prescribing'',
      ''competition'', ''share'', ''growth'', ''trend'', ''segment'', ''therapeutic'',
      ''survey'', ''analysis'', ''data'', ''patient'', ''clinical'', ''therapy'']"

text \<open>
  \<^verbatim>\<open>generateKeywordVector\<close> (lines 90-103). The quotient is taken first and by the
  length of the text as given, not of the lowered text; on the empty text it is \<open>0/0\<close>.
\<close>

definition generateKeywordVector :: "string \<Rightarrow> number list" where
  "generateKeywordVector text =
     (let lowerText = toLowerCase text
      in map (\<lambda>keyword.
                num_mul (num_div (Fin (real (matchCount keyword lowerText))) (of_length text))
                        (Fin 1000))
             keywordList)"

text \<open>
  What \<^verbatim>\<open>generateEmbedding\<close> returns and a chunk stores as its embedding: an array
  of numbers, or nothing (\<^verbatim>\<open>undefined\<close> or \<^verbatim>\<open>null\<close>). Line 83 returns
  \<^verbatim>\<open>response.data.data[0].embedding\<close> as it reads it, so a response whose first data
  entry has no such property gives \<^verbatim>\<open>undefined\<close>, and no exception. A value of
  another JSON type in that place (a string, a number, an array of other things than
  numbers) is not modelled.
\<close>

datatype embeddingValue = Vector "number list" | Absent

text \<open>
  \<^verbatim>\<open>generateEmbedding\<close> (lines 66-88). The environment is the configured key, if any,
  and the outcome of lines 73-83 for a key and an input: an exception (the request is
  rejected on a network failure or an error status, or the read throws because the
  response has no \<^verbatim>\<open>data.data[0]\<close>), or the value read. \<^verbatim>\<open>try\<close>/\<^verbatim>\<open>catch\<close> is
  the case distinction on that outcome; a value that was read is returned unchecked.
\<close>

datatype error = Error string

type_synonym embeddingService = "string \<Rightarrow> string \<Rightarrow> error + embeddingValue"

definition tryCatch :: "error + 'a \<Rightarrow> (error \<Rightarrow> error + 'a) \<Rightarrow> error + 'a" where
  "tryCatch body handler = (case body of Inl e \<Rightarrow> handler e | Inr v \<Rightarrow> Inr v)"

definition keyMissing :: "string option \<Rightarrow> bool" where
  "keyMissing apiKey = (case apiKey of None \<Rightarrow> True | Some k \<Rightarrow> k = [])"

definition generateEmbedding ::
  "string option \<Rightarrow> embeddingService \<Rightarrow> string \<Rightarrow> error + embeddingValue" where
  "generateEmbedding apiKey post text =
     tryCatch
       (if keyMissing apiKey then Inr (Vector (generateKeywordVector text))
        else post (the apiKey) (take 8000 text))
       (\<lambda>e. Inr (Vector (generateKeywordVector text)))"

subsection \<open>Chunker\<close>

text \<open>
  \<^verbatim>\<open>splitIntoChunks\<close> (lines 121-142). The loop state is the array of chunks pushed so
  far and \<^verbatim>\<open>currentChunk\<close>; a string is truthy when it is not empty.
\<close>

definition sentencesOf :: "string \<Rightarrow> string list" where
  "sentencesOf text = filter (\<lambda>s. length (trim s) > 0) (splitTerminators text)"

definition pushChunk :: "string list \<Rightarrow> string \<Rightarrow> string list" where
  "pushChunk chunks currentChunk =
     (if trim currentChunk \<noteq> [] then chunks @ [trim currentChunk] else chunks)"

definition chunkStep :: "number \<Rightarrow> string list \<times> string \<Rightarrow> string \<Rightarrow> string list \<times> string" where
  "chunkStep maxChunkSize st sentence =
     (case st of (chunks, currentChunk) \<Rightarrow>
        if num_lt (Fin (real (length currentChunk + length sentence))) maxChunkSize
        then (chunks, currentChunk @ sentence @ ''. '')
        else (pushChunk chunks currentChunk, sentence @ ''. ''))"

definition splitIntoChunks :: "string \<Rightarrow> number \<Rightarrow> string list" where
  "splitIntoChunks text maxChunkSize =
     (case foldl (chunkStep maxChunkSize) ([], []) (sentencesOf text) of
        (chunks, currentChunk) \<Rightarrow> pushChunk chunks currentChunk)"

text \<open>
  The chunker as the specification words it: walk the sentences, keep adding to the
  current chunk while the next sentence leaves it below the bound, otherwise emit the
  current chunk (when it is not blank) and start a new one with that sentence; emit
  what is left at the end.
\<close>

fun greedyChunks :: "number \<Rightarrow> string \<Rightarrow> string list \<Rightarrow> string list" where
  "greedyChunks bound current [] = (if trim current = [] then [] else [trim current])"
| "greedyChunks bound current (s # ss) =
     (if num_lt (Fin (real (length current + length s))) bound
      then greedyChunks bound (current @ s @ ''. '') ss
      else (if trim current = [] then [] else [trim current])
           @ greedyChunks bound (s @ ''. '') ss)"

subsection \<open>Chunk store and similarity ranker\<close>

text \<open>
  The objects of \<^verbatim>\<open>documentStore\<close> (built at lines 169-179) and of
  \<^verbatim>\<open>trainingExamples\<close> (lines 610-616); a field name that both objects have, or
  that Isabelle reserves, carries a prefix. The embedding of a chunk is what
  \<^verbatim>\<open>generateEmbedding\<close> returned for its text (line 167).
\<close>

record chunk =
  chunk_id :: string
  fileName :: string
  content :: string
  embedding :: embeddingValue
  category :: string
  chunkIndex :: nat
  totalChunks :: nat
  processedAt :: string
  chunk_keywords :: "string list"

record scored_chunk = chunk +
  similarity :: number

record training_example =
  ex_content :: string
  ex_fileName :: string
  uploadedAt :: string
  ex_category :: string
  ex_keywords :: "string list"

text \<open>
  The globals that the query and the delete handler read and write:
  \<^verbatim>\<open>trainingExamples\<close>, \<^verbatim>\<open>documentStore\<close>, the number that
  \<^verbatim>\<open>adminSettings.similarityThreshold\<close> holds when the filter compares with it, and
  the counter \<^verbatim>\<open>systemStats.ragQueries\<close>.
\<close>

record server_state =
  trainingExamples :: "training_example list"
  documentStore :: "chunk list"
  similarityThreshold :: number
  ragQueries :: nat

text \<open>\<^verbatim>\<open>{...doc, similarity: s}\<close>: the chunk with one more field.\<close>

definition withSimilarity :: "chunk \<Rightarrow> number \<Rightarrow> scored_chunk" where
  "withSimilarity doc s = chunk.extend doc (scored_chunk.fields s)"

text \<open>
  \<^verbatim>\<open>calculateSimilarity\<close> as the query calls it, on values that need not be arrays:
  the first line reads \<^verbatim>\<open>vector1.length\<close> and then \<^verbatim>\<open>vector2.length\<close>, and
  either read throws a \<^verbatim>\<open>TypeError\<close> when the value is \<^verbatim>\<open>undefined\<close>.
\<close>

definition typeError :: error where
  "typeError = Error ''Cannot read properties of undefined (reading length)''"

definition calculateSimilarityOf :: "embeddingValue \<Rightarrow> embeddingValue \<Rightarrow> error + number" where
  "calculateSimilarityOf value1 value2 =
     (case value1 of
        Absent \<Rightarrow> Inl typeError
      | Vector vector1 \<Rightarrow>
          (case value2 of
             Absent \<Rightarrow> Inl typeError
           | Vector vector2 \<Rightarrow> Inr (calculateSimilarity vector1 vector2)))"

text \<open>
  \<^verbatim>\<open>documentStore.map(doc => ({...doc, similarity: ...}))\<close>: the chunks are scored in
  order and the first exception ends the \<^verbatim>\<open>map\<close>.
\<close>

fun scoreAll :: "embeddingValue \<Rightarrow> chunk list \<Rightarrow> error + scored_chunk list" where
  "scoreAll queryEmbedding [] = Inr []"
| "scoreAll queryEmbedding (doc # docs) =
     (case calculateSimilarityOf queryEmbedding (embedding doc) of
        Inl e \<Rightarrow> Inl e
      | Inr s \<Rightarrow>
          (case scoreAll queryEmbedding docs of
             Inl e \<Rightarrow> Inl e
           | Inr rest \<Rightarrow> Inr (withSimilarity doc s # rest)))"

text \<open>
  \<^verbatim>\<open>Array.prototype.sort\<close> with a comparison function. The sort is stable, and a
  comparison result that is \<open>NaN\<close> counts as \<open>0\<close>; an element moves behind another one
  only when the comparison of the two is above zero. For a comparison function that
  is consistent this fixes the result, which insertion from the right computes.
\<close>

fun sortInsert :: "('a \<Rightarrow> 'a \<Rightarrow> number) \<Rightarrow> 'a \<Rightarrow> 'a list \<Rightarrow> 'a list" where
  "sortInsert cmp x [] = [x]"
| "sortInsert cmp x (y # ys) =
     (if num_gt (cmp x y) (Fin 0) then y # sortInsert cmp x ys else x # y # ys)"

fun jsSort :: "('a \<Rightarrow> 'a \<Rightarrow> number) \<Rightarrow> 'a list \<Rightarrow> 'a list" where
  "jsSort cmp [] = []"
| "jsSort cmp (x # xs) = sortInsert cmp x (jsSort cmp xs)"

text \<open>
  \<^verbatim>\<open>slice(0, limit)\<close> for an integer limit: a negative limit counts from the end.
\<close>

definition sliceFromStart :: "'a list \<Rightarrow> int \<Rightarrow> 'a list" where
  "sliceFromStart xs limit =
     (if limit < 0 then take (nat (int (length xs) + limit)) xs else take (nat limit) xs)"

text \<open>
  \<^verbatim>\<open>retrieveRelevantContext\<close> (lines 196-222): the early return on the empty store,
  the embedding of the query, the scoring of every stored chunk, then filter, sort and
  slice. The outer \<^verbatim>\<open>catch\<close> answers an exception of the body with the empty list,
  and the counter is not reached then.
\<close>

definition byDescendingSimilarity :: "scored_chunk \<Rightarrow> scored_chunk \<Rightarrow> number" where
  "byDescendingSimilarity a b = num_sub (similarity b) (similarity a)"

definition retrieveRelevantContext ::
  "string option \<Rightarrow> embeddingService \<Rightarrow> server_state \<Rightarrow> string \<Rightarrow> int
     \<Rightarrow> scored_chunk list \<times> server_state" where
  "retrieveRelevantContext apiKey post st query limit =
     (if length (documentStore st) = 0 then ([], st)
      else case generateEmbedding apiKey post query of
        Inl e \<Rightarrow> ([], st)
      | Inr queryEmbedding \<Rightarrow>
          (case scoreAll queryEmbedding (documentStore st) of
             Inl e \<Rightarrow> ([], st)
           | Inr similarities \<Rightarrow>
               (let relevantDocs =
                      sliceFromStart
                        (jsSort byDescendingSimilarity
                           (filter (\<lambda>doc. num_gt (similarity doc) (similarityThreshold st))
                                   similarities))
                        limit
                in (relevantDocs, st\<lparr>ragQueries := ragQueries st + 1\<rparr>))))"

subsection \<open>Deleting a training example\<close>

text \<open>
  \<^verbatim>\<open>parseInt\<close> of a string with no radix given: leading white space and one sign are
  skipped, a prefix \<^verbatim>\<open>0x\<close> selects radix 16, the longest run of digits is read, and
  the result is \<open>NaN\<close> when that run is empty. Whatever follows the digits is ignored.
\<close>

definition digitValue :: "char \<Rightarrow> nat option" where
  "digitValue c =
     (let n = (of_char c :: nat)
      in if 48 \<le> n \<and> n \<le> 57 then Some (n - 48)
         else if 97 \<le> n \<and> n \<le> 122 then Some (n - 87)
         else if 65 \<le> n \<and> n \<le> 90 then Some (n - 55)
         else None)"

definition isRadixDigit :: "nat \<Rightarrow> char \<Rightarrow> bool" where
  "isRadixDigit radix c = (case digitValue c of None \<Rightarrow> False | Some d \<Rightarrow> d < radix)"

definition digitsValue :: "nat \<Rightarrow> string \<Rightarrow> nat" where
  "digitsValue radix z = foldl (\<lambda>acc c. acc * radix + the (digitValue c)) 0 z"

definition parseInt :: "string \<Rightarrow> number" where
  "parseInt inputString =
     (let s1 = trimStart inputString;
          negative = (take 1 s1 = ''-'');
          s2 = (if take 1 s1 = ''-'' \<or> take 1 s1 = ''+'' then drop 1 s1 else s1);
          hex = (take 2 s2 = ''0x'' \<or> take 2 s2 = ''0X'');
          radix = (if hex then 16 else 10);
          s3 = (if hex then drop 2 s2 else s2);
          z = takeWhile (isRadixDigit radix) s3
      in if z = [] then NaN
         else Fin (real_of_int ((if negative then - 1 else 1) * int (digitsValue radix z))))"

text \<open>
  \<^verbatim>\<open>splice(start, deleteCount)\<close>: the start is made an integer first (\<open>NaN\<close> becomes
  \<open>0\<close>, a fraction is cut off), counted from the end when negative, and clamped to the
  array; the result is the removed elements and the array that is left.
\<close>

definition truncateReal :: "real \<Rightarrow> int" where
  "truncateReal r = (if r < 0 then \<lceil>r\<rceil> else \<lfloor>r\<rfloor>)"

fun spliceStart :: "number \<Rightarrow> nat \<Rightarrow> nat" where
  "spliceStart NaN len = 0"
| "spliceStart NegInf len = 0"
| "spliceStart PosInf len = len"
| "spliceStart (Fin r) len =
     (let k = truncateReal r
      in if k < 0 then nat (max (int len + k) 0) else min (nat k) len)"

definition splice_js :: "'a list \<Rightarrow> number \<Rightarrow> nat \<Rightarrow> 'a list \<times> 'a list" where
  "splice_js xs start deleteCount =
     (let actualStart = spliceStart start (length xs);
          actualDeleteCount = min deleteCount (length xs - actualStart)
      in (take actualDeleteCount (drop actualStart xs),
          take actualStart xs @ drop (actualStart + actualDeleteCount) xs))"

text \<open>
  \<^verbatim>\<open>DELETE /admin/training-examples/:index\<close> (lines 660-687). The three answers are
  status 404, status 200 with the report, and status 500 from the \<^verbatim>\<open>catch\<close>: when
  \<^verbatim>\<open>splice\<close> removed nothing, \<^verbatim>\<open>removed\<close> is \<^verbatim>\<open>undefined\<close> and reading
  \<^verbatim>\<open>removed.fileName\<close> throws before the store is assigned anything different.
\<close>

record deleted =
  deletedFile :: string
  removedChunks :: nat
  remainingCount :: nat

datatype delete_response = NotFound404 | Deleted200 deleted | Failed500

definition deleteTrainingExample :: "string \<Rightarrow> server_state \<Rightarrow> delete_response \<times> server_state" where
  "deleteTrainingExample indexParam st =
     (let index = parseInt indexParam
      in if num_lt index (Fin 0) \<or> num_ge index (of_length (trainingExamples st))
         then (NotFound404, st)
         else case splice_js (trainingExamples st) index 1 of
           (removedItems, remaining) \<Rightarrow>
             (case removedItems of
                [] \<Rightarrow> (Failed500, st\<lparr>trainingExamples := remaining\<rparr>)
              | removed # _ \<Rightarrow>
                  (let originalLength = length (documentStore st);
                       newStore = filter (\<lambda>doc. fileName doc \<noteq> ex_fileName removed)
                                         (documentStore st)
                   in (Deleted200 \<lparr>deletedFile = ex_fileName removed,
                                   removedChunks = originalLength - length newStore,
                                   remainingCount = length remaining\<rparr>,
                       st\<lparr>trainingExamples := remaining, documentStore := newStore\<rparr>))))"

subsection \<open>Settings handlers\<close>

text \<open>
  A value of a JSON request body, and an object as the function from property names to
  values that reads \<^verbatim>\<open>undefined\<close> for a property it does not have. \<^verbatim>\<open>truthy\<close> is
  the test of \<^verbatim>\<open>if (x)\<close> and of \<^verbatim>\<open>x || y\<close>.
\<close>

datatype jsval = Undefined | Null | Bool bool | Num number | Str string

type_synonym jsobject = "string \<Rightarrow> jsval"

fun truthy :: "jsval \<Rightarrow> bool" where
  "truthy Undefined = False"
| "truthy Null = False"
| "truthy (Bool b) = b"
| "truthy (Num n) = (n \<noteq> NaN \<and> n \<noteq> Fin 0)"
| "truthy (Str s) = (s \<noteq> [])"

definition emptyObject :: jsobject where
  "emptyObject = (\<lambda>name. Undefined)"

text \<open>
  \<^verbatim>\<open>POST /admin/update-api-settings\<close> (lines 572-598). \<^verbatim>\<open>parseInt\<close> and
  \<^verbatim>\<open>parseFloat\<close> are applied to request values of any type, which the runtime first
  turns into strings; the two conversions are arguments of the model.
\<close>

definition updateApiSettings ::
  "(jsval \<Rightarrow> number) \<Rightarrow> (jsval \<Rightarrow> number) \<Rightarrow> jsobject \<Rightarrow> jsobject \<Rightarrow> jsobject" where
  "updateApiSettings parseIntOf parseFloatOf body adminSettings =
     (let claudeModel = body ''claudeModel'';
          maxTokens = body ''maxTokens'';
          temperature = body ''temperature'';
          ragEnabled = body ''ragEnabled'';
          threshold = body ''similarityThreshold'';
          maxTrainingExamples = body ''maxTrainingExamples'';
          a1 = (if truthy claudeModel
                then adminSettings(''claudeModel'' := claudeModel) else adminSettings);
          a2 = (if truthy maxTokens
                then a1(''maxTokens'' := Num (parseIntOf maxTokens)) else a1);
          a3 = (if temperature \<noteq> Undefined
                then a2(''temperature'' := Num (parseFloatOf temperature)) else a2);
          a4 = (if ragEnabled \<noteq> Undefined
                then a3(''ragEnabled'' := ragEnabled) else a3);
          a5 = (if truthy threshold
                then a4(''similarityThreshold'' := Num (parseFloatOf threshold)) else a4);
          a6 = (if truthy maxTrainingExamples
                then a5(''maxTrainingExamples'' := Num (parseIntOf maxTrainingExamples)) else a5)
      in a6)"

text \<open>
  \<^verbatim>\<open>POST /admin/rag-settings\<close> (lines 1436-1472): \<^verbatim>\<open>ragSettings\<close> is replaced by a
  new object of four properties, three of which are then copied into
  \<^verbatim>\<open>adminSettings\<close>.
\<close>

definition ragSettingsHandler :: "jsobject \<Rightarrow> jsobject \<times> jsobject \<Rightarrow> jsobject \<times> jsobject" where
  "ragSettingsHandler body st =
     (case st of (ragSettings, adminSettings) \<Rightarrow>
        (let enabled = body ''enabled'';
             mode = body ''mode'';
             threshold = body ''similarityThreshold'';
             maxExamples = body ''maxExamples'';
             newRagSettings = emptyObject
               (''enabled'' := (if enabled \<noteq> Undefined then enabled else ragSettings ''enabled''),
                ''mode'' := (if truthy mode then mode else ragSettings ''mode''),
                ''similarityThreshold'' :=
                   (if threshold \<noteq> Undefined then threshold else ragSettings ''similarityThreshold''),
                ''maxExamples'' :=
                   (if maxExamples \<noteq> Undefined then maxExamples else ragSettings ''maxExamples''))
         in (newRagSettings,
             adminSettings
               (''ragEnabled'' := newRagSettings ''enabled'',
                ''similarityThreshold'' := newRagSettings ''similarityThreshold'',
                ''maxTrainingExamples'' := newRagSettings ''maxExamples''))))"

text \<open>
  The merge as the specification words it, for one property: the patch value when it
  is not \<^verbatim>\<open>undefined\<close>, the prior value otherwise.
\<close>

definition mergeField :: "jsval \<Rightarrow> jsval \<Rightarrow> jsval" where
  "mergeField patch prior = (if patch \<noteq> Undefined then patch else prior)"


subsection \<open>Vocabulary of the statements\<close>

text \<open>
  What the specification asks of the query, written without the operations of the
  implementation: the similarity of a stored chunk to a query vector, and the stored
  chunks that lie strictly above the threshold, each with its similarity, in
  insertion order. A returned record is read back as the chunk it holds and its
  similarity. A query can be scored when the query embedding and every stored
  embedding is a vector.
\<close>

definition similarityTo :: "number list \<Rightarrow> chunk \<Rightarrow> number" where
  "similarityTo queryVector doc =
     (case embedding doc of Vector v \<Rightarrow> calculateSimilarity queryVector v | Absent \<Rightarrow> NaN)"

definition scoredAbove :: "number list \<Rightarrow> number \<Rightarrow> chunk list \<Rightarrow> (chunk \<times> number) list" where
  "scoredAbove queryVector threshold store =
     filter (\<lambda>p. num_gt (snd p) threshold) (map (\<lambda>doc. (doc, similarityTo queryVector doc)) store)"

definition scoreOf :: "scored_chunk \<Rightarrow> chunk \<times> number" where
  "scoreOf r = (chunk.truncate r, similarity r)"

definition scorable :: "embeddingValue \<Rightarrow> chunk list \<Rightarrow> bool" where
  "scorable queryEmbedding store =
     (queryEmbedding \<noteq> Absent \<and> list_all (\<lambda>doc. embedding doc \<noteq> Absent) store)"

text \<open>Descending order of similarity: no later element lies above an earlier one.\<close>

definition descending :: "scored_chunk list \<Rightarrow> bool" where
  "descending ys = sorted_wrt (\<lambda>a b. \<not> num_gt (similarity b) (similarity a)) ys"

text \<open>
  A vector of norm zero is one whose components are all zero; a value is zero-like when
  it is zero or \<open>NaN\<close>, which is what a sum of products with zeros can be.
\<close>

definition zeroNorm :: "number list \<Rightarrow> bool" where
  "zeroNorm v = list_all (\<lambda>x. x = Fin 0) v"

definition zeroish :: "number \<Rightarrow> bool" where
  "zeroish x = (x = Fin 0 \<or> x = NaN)"

text \<open>
  Occurrences of a word in a text, written without \<^verbatim>\<open>toLowerCase\<close> and without the
  matching loop. A word occurs at a place when the text reads the word from there on;
  it occurs there ignoring letter case when each character is the character of the
  word or, for a small letter of the word, its capital. Places are disjoint when they
  are listed in ascending order and each one lies at least the width of the word behind
  the one before it, so that no two occurrences share a character. The number of
  occurrences is the largest length of a list of disjoint places of occurrence.
\<close>

definition occursAt :: "string \<Rightarrow> string \<Rightarrow> nat \<Rightarrow> bool" where
  "occursAt word s p = (take (length word) (drop p s) = word)"

definition sameLetter :: "char \<Rightarrow> char \<Rightarrow> bool" where
  "sameLetter c d =
     (c = d \<or> (97 \<le> (of_char d :: nat) \<and> (of_char d :: nat) \<le> 122 \<and> of_char c + 32 = (of_char d :: nat)))"

definition occursIgnoringCase :: "string \<Rightarrow> string \<Rightarrow> nat \<Rightarrow> bool" where
  "occursIgnoringCase word s p = list_all2 sameLetter (take (length word) (drop p s)) word"

fun spacedFrom :: "nat \<Rightarrow> nat \<Rightarrow> nat list \<Rightarrow> bool" where
  "spacedFrom width lo [] = True"
| "spacedFrom width lo (p # ps) = (lo \<le> p \<and> spacedFrom width (p + width) ps)"

definition disjointPlaces :: "(nat \<Rightarrow> bool) \<Rightarrow> nat \<Rightarrow> nat list \<Rightarrow> bool" where
  "disjointPlaces occurs width ps = (spacedFrom width 0 ps \<and> list_all occurs ps)"

definition largestCount :: "(nat \<Rightarrow> bool) \<Rightarrow> nat \<Rightarrow> nat \<Rightarrow> bool" where
  "largestCount occurs width n =
     ((\<exists>ps. disjointPlaces occurs width ps \<and> length ps = n)
      \<and> (\<forall>ps. disjointPlaces occurs width ps \<longrightarrow> length ps \<le> n))"

definition smallLetters :: "string \<Rightarrow> bool" where
  "smallLetters word = list_all (\<lambda>c. 97 \<le> (of_char c :: nat) \<and> (of_char c :: nat) \<le> 122) word"

text \<open>
  For the chunker: a blank string (one that \<^verbatim>\<open>trim\<close> empties), a string without
  sentence terminators, the current chunk that a group of sentences builds up, a piece
  with the full stop that ends it, a sentence behind the space of a separator, and the
  chunk that is pushed for a group.
\<close>

definition blank :: "string \<Rightarrow> bool" where
  "blank s = list_all isWhiteSpace s"

definition terminatorFree :: "string \<Rightarrow> bool" where
  "terminatorFree s = list_all (\<lambda>c. \<not> isTerminator c) s"

definition joinSentences :: "string list \<Rightarrow> string" where
  "joinSentences g = concat (map (\<lambda>s. s @ ''. '') g)"

definition withDot :: "string \<Rightarrow> string" where
  "withDot p = p @ ''.''"

definition spaced :: "string \<Rightarrow> string" where
  "spaced s = CHR '' '' # s"

definition emitted :: "string list \<Rightarrow> string list" where
  "emitted g = (if trim (joinSentences g) = [] then [] else [trim (joinSentences g)])"

subsection \<open>Sample data\<close>

text \<open>Concrete chunks, stores and embedding services on which the results are run.\<close>

definition sampleChunk :: "string \<Rightarrow> string \<Rightarrow> number list \<Rightarrow> chunk" where
  "sampleChunk ident name v =
     \<lparr>chunk_id = ident, fileName = name, content = ''Adoption grew.'', embedding = Vector v,
      category = ''training'', chunkIndex = 0, totalChunks = 1, processedAt = [],
      chunk_keywords = []\<rparr>"

definition fixedService :: "number list \<Rightarrow> embeddingService" where
  "fixedService v = (\<lambda>key input. Inr (Vector v))"

text \<open>A service that answers with status 200 and a first data entry without an embedding.\<close>

definition emptyResponseService :: embeddingService where
  "emptyResponseService = (\<lambda>key input. Inr Absent)"

definition failingService :: embeddingService where
  "failingService = (\<lambda>key input. Inl (Error ''Request failed with status code 429''))"

definition unitQuery :: "number list" where
  "unitQuery = [Fin 1, Fin 0, Fin 0, Fin 0]"

definition rankingStore :: "chunk list" where
  "rankingStore =
     [sampleChunk ''a-chunk-0'' ''a'' [Fin 9, Fin 3, Fin 3, Fin 1],
      sampleChunk ''b-chunk-0'' ''b'' [Fin 5, Fin 5, Fin 5, Fin 5],
      sampleChunk ''c-chunk-0'' ''c'' [Fin 5, Fin 5, Fin 5, Fin 5],
      sampleChunk ''d-chunk-0'' ''d'' [Fin 2, Fin 8, Fin 4, Fin 4]]"

definition rankingState :: server_state where
  "rankingState =
     \<lparr>trainingExamples = [], documentStore = rankingStore,
      similarityThreshold = Fin (4 / 10), ragQueries = 0\<rparr>"

text \<open>
  A store whose chunks carry fallback embeddings: the first text holds no word of the
  vocabulary, the second holds two.
\<close>

definition fallbackStore :: "chunk list" where
  "fallbackStore =
     [sampleChunk ''plain-chunk-0'' ''plain'' (generateKeywordVector ''Hello world.''),
      sampleChunk ''survey-chunk-0'' ''survey'' (generateKeywordVector ''Market data.'')]"

definition fallbackState :: server_state where
  "fallbackState =
     \<lparr>trainingExamples = [], documentStore = fallbackStore,
      similarityThreshold = Fin (- 1), ragQueries = 0\<rparr>"

text \<open>
  A registry of two uploads and a store that holds three chunks of the second upload
  and one chunk of the first.
\<close>

definition exampleA :: training_example where
  "exampleA = \<lparr>ex_content = ''Adoption grew. Share fell. Growth held.'', ex_fileName = ''a.txt'',
                uploadedAt = [], ex_category = ''training'', ex_keywords = []\<rparr>"

definition exampleB :: training_example where
  "exampleB = \<lparr>ex_content = ''Survey data.'', ex_fileName = ''b.txt'',
                uploadedAt = [], ex_category = ''training'', ex_keywords = []\<rparr>"

definition cascadeState :: server_state where
  "cascadeState =
     \<lparr>trainingExamples = [exampleB, exampleA],
      documentStore =
        [sampleChunk ''a.txt-chunk-0'' ''a.txt'' unitQuery,
         sampleChunk ''b.txt-chunk-0'' ''b.txt'' unitQuery,
         sampleChunk ''a.txt-chunk-1'' ''a.txt'' unitQuery,
         sampleChunk ''a.txt-chunk-2'' ''a.txt'' unitQuery],
      similarityThreshold = Fin (7 / 10), ragQueries = 0\<rparr>"

text \<open>
  The settings objects as the server starts with them (lines 839-864 and 892-897; the
  prompt text is shortened), a conversion that reads a number value as itself, and two
  request bodies.
\<close>

definition defaultAdminSettings :: jsobject where
  "defaultAdminSettings =
     emptyObject
       (''systemPrompt'' := Str ''You are an expert pharmaceutical market research analyst'',
        ''claudeModel'' := Str ''claude-sonnet-4-20250514'',
        ''maxTokens'' := Num (Fin 4000),
        ''temperature'' := Num (Fin (7 / 10)),
        ''ragEnabled'' := Bool True,
        ''similarityThreshold'' := Num (Fin (7 / 10)),
        ''maxTrainingExamples'' := Num (Fin 5))"

definition defaultRagSettings :: jsobject where
  "defaultRagSettings =
     emptyObject
       (''enabled'' := defaultAdminSettings ''ragEnabled'',
        ''mode'' := Str ''learning'',
        ''similarityThreshold'' := defaultAdminSettings ''similarityThreshold'',
        ''maxExamples'' := defaultAdminSettings ''maxTrainingExamples'')"

definition numberOf :: "jsval \<Rightarrow> number" where
  "numberOf v = (case v of Num n \<Rightarrow> n | _ \<Rightarrow> NaN)"

definition zeroThresholdPatch :: jsobject where
  "zeroThresholdPatch = emptyObject(''similarityThreshold'' := Num (Fin 0))"

definition apiPatch :: jsobject where
  "apiPatch =
     emptyObject
       (''claudeModel'' := Str ''claude-3-opus'',
        ''maxTokens'' := Num (Fin 2000),
        ''temperature'' := Num (Fin 0),
        ''similarityThreshold'' := Num (Fin (1 / 2)),
        ''maxTrainingExamples'' := Num (Fin 3))"

text \<open>
  A chunk that was stored without an embedding, and the ranking store with that chunk
  in front.
\<close>

definition unembeddedChunk :: chunk where
  "unembeddedChunk = (sampleChunk ''e-chunk-0'' ''e'' [])\<lparr>embedding := Absent\<rparr>"

definition brokenState :: server_state where
  "brokenState = rankingState\<lparr>documentStore := unembeddedChunk # rankingStore\<rparr>"

text \<open>A text with capitals in which the word \<^verbatim>\<open>data\<close> stands twice.\<close>

definition mixedCaseText :: string where
  "mixedCaseText = ''Market Data and market DATA.''"

text \<open>A body for \<^verbatim>\<open>/admin/update-api-settings\<close> that moves the threshold to 0.5.\<close>

definition halfThresholdPatch :: jsobject where
  "halfThresholdPatch = emptyObject(''similarityThreshold'' := Num (Fin (1 / 2)))"

section \<open>Properties\<close>

subsection \<open>Numbers and their order\<close>

lemma num_gt_irrefl: "\<not> num_gt x x"
  by (cases x) (simp_all add: num_gt_def)

lemma num_gt_not_NaN: "num_gt x y \<Longrightarrow> x \<noteq> NaN \<and> y \<noteq> NaN"
  by (cases x; cases y) (simp_all add: num_gt_def)

lemma num_gt_trans: "num_gt x y \<Longrightarrow> num_gt y z \<Longrightarrow> num_gt x z"
  by (cases x; cases y; cases z) (simp_all add: num_gt_def)

lemma num_gt_negtrans:
  "y \<noteq> NaN \<Longrightarrow> \<not> num_gt x y \<Longrightarrow> \<not> num_gt y z \<Longrightarrow> \<not> num_gt x z"
  by (cases x; cases y; cases z) (simp_all add: num_gt_def)

text \<open>On numbers that are not \<open>NaN\<close> the comparison function orders by similarity.\<close>

lemma cmp_sub_pos:
  "x \<noteq> NaN \<Longrightarrow> y \<noteq> NaN \<Longrightarrow> num_gt (num_sub y x) (Fin 0) = num_gt y x"
  by (cases x; cases y) (simp_all add: num_gt_def num_sub_def)

lemma sqrt_100: "sqrt 100 = 10"
  by (rule real_sqrt_unique) simp_all

subsection \<open>Scored chunks\<close>

lemma similarity_withSimilarity [simp]: "similarity (withSimilarity doc s) = s"
  by (simp add: withSimilarity_def chunk.defs scored_chunk.defs)

lemma embedding_withSimilarity [simp]: "embedding (withSimilarity doc s) = embedding doc"
  by (simp add: withSimilarity_def chunk.defs scored_chunk.defs)

lemma truncate_withSimilarity [simp]: "chunk.truncate (withSimilarity doc s) = doc"
  by (simp add: withSimilarity_def chunk.defs scored_chunk.defs)

subsection \<open>The sort: permutation, order, stability\<close>

lemma mset_sortInsert: "mset (sortInsert cmp x ys) = add_mset x (mset ys)"
  by (induction ys) auto

lemma mset_jsSort: "mset (jsSort cmp xs) = mset xs"
  by (induction xs) (auto simp: mset_sortInsert)

lemma set_jsSort: "set (jsSort cmp xs) = set xs"
  using mset_jsSort [of cmp xs] by (metis set_mset_mset)

lemma descending_sortInsert:
  assumes "similarity x \<noteq> NaN" "\<forall>y\<in>set ys. similarity y \<noteq> NaN" "descending ys"
  shows "descending (sortInsert byDescendingSimilarity x ys)"
  using assms
proof (induction ys)
  case Nil
  then show ?case by (simp add: descending_def)
next
  case (Cons y ys)
  show ?case
  proof (cases "num_gt (similarity y) (similarity x)")
    case True
    then have "num_gt (byDescendingSimilarity x y) (Fin 0)"
      using Cons.prems by (simp add: byDescendingSimilarity_def cmp_sub_pos)
    moreover have "descending (sortInsert byDescendingSimilarity x ys)"
      using Cons by (simp add: descending_def)
    moreover have "\<forall>z\<in>set (sortInsert byDescendingSimilarity x ys).
                     \<not> num_gt (similarity z) (similarity y)"
    proof
      fix z assume "z \<in> set (sortInsert byDescendingSimilarity x ys)"
      then have "z = x \<or> z \<in> set ys"
        using mset_sortInsert [of byDescendingSimilarity x ys]
        by (metis insert_iff set_mset_add_mset_insert set_mset_mset)
      then show "\<not> num_gt (similarity z) (similarity y)"
        using True Cons.prems(3) num_gt_trans num_gt_irrefl
        by (auto simp: descending_def)
    qed
    ultimately show ?thesis by (simp add: descending_def)
  next
    case False
    then have nle: "\<not> num_gt (byDescendingSimilarity x y) (Fin 0)"
      using Cons.prems by (simp add: byDescendingSimilarity_def cmp_sub_pos)
    have "\<forall>z\<in>set ys. \<not> num_gt (similarity z) (similarity x)"
      using False Cons.prems num_gt_negtrans [of "similarity y"]
      by (auto simp: descending_def)
    then show ?thesis using nle False Cons.prems by (simp add: descending_def)
  qed
qed

lemma descending_jsSort:
  "\<forall>y\<in>set xs. similarity y \<noteq> NaN \<Longrightarrow> descending (jsSort byDescendingSimilarity xs)"
proof (induction xs)
  case Nil
  then show ?case by (simp add: descending_def)
next
  case (Cons x xs)
  then show ?case
    by (simp add: descending_sortInsert set_jsSort)
qed

text \<open>An element is moved only past elements of a strictly larger similarity.\<close>

lemma stable_sortInsert:
  assumes "similarity x \<noteq> NaN" "\<forall>y\<in>set ys. similarity y \<noteq> NaN"
  shows "filter (\<lambda>d. similarity d = s) (sortInsert byDescendingSimilarity x ys)
         = filter (\<lambda>d. similarity d = s) (x # ys)"
  using assms
proof (induction ys)
  case Nil
  then show ?case by simp
next
  case (Cons y ys)
  show ?case
  proof (cases "num_gt (byDescendingSimilarity x y) (Fin 0)")
    case True
    then have "num_gt (similarity y) (similarity x)"
      using Cons.prems by (simp add: byDescendingSimilarity_def cmp_sub_pos)
    then have "similarity y \<noteq> similarity x" using num_gt_irrefl by auto
    then show ?thesis using True Cons by auto
  next
    case False
    then show ?thesis by simp
  qed
qed

lemma stable_jsSort:
  "\<forall>y\<in>set xs. similarity y \<noteq> NaN \<Longrightarrow>
   filter (\<lambda>d. similarity d = s) (jsSort byDescendingSimilarity xs)
   = filter (\<lambda>d. similarity d = s) xs"
proof (induction xs)
  case Nil
  then show ?case by simp
next
  case (Cons x xs)
  then show ?case by (simp add: stable_sortInsert set_jsSort)
qed

lemma descending_ge:
  "\<forall>d\<in>set ys. similarity d \<noteq> NaN \<Longrightarrow> descending ys \<Longrightarrow>
   sorted_wrt (\<lambda>a b. num_ge (similarity a) (similarity b)) ys"
  unfolding descending_def
  by (erule sorted_wrt_mono_rel [rotated]) (auto simp: num_ge_def num_gt_def)

subsection \<open>The embedding provider\<close>

text \<open>
  \<^verbatim>\<open>generateEmbedding\<close> raises no exception: with no key configured, or when the
  request or the read of its response throws, it returns the keyword vector of the
  text; otherwise it returns what line 83 read from the response, whatever that is.
\<close>

lemma generateEmbedding_no_exception:
  "(\<exists>v. generateEmbedding apiKey post text = Inr v)
   \<and> (keyMissing apiKey \<or> (\<exists>e. post (the apiKey) (take 8000 text) = Inl e)
        \<longrightarrow> generateEmbedding apiKey post text = Inr (Vector (generateKeywordVector text)))
   \<and> (\<not> keyMissing apiKey \<and> post (the apiKey) (take 8000 text) = Inr v
        \<longrightarrow> generateEmbedding apiKey post text = Inr v)"
  by (auto simp: generateEmbedding_def tryCatch_def split: sum.splits)

text \<open>
  Claim C3. A response of status 200 whose first data entry carries no
  \<^verbatim>\<open>embedding\<close> is a failure of the remote call that throws nothing: with a key
  configured, \<^verbatim>\<open>generateEmbedding\<close> then returns \<^verbatim>\<open>undefined\<close> and not the keyword
  vector of the text.
\<close>

theorem generateEmbedding_missing_embedding:
  "\<not> keyMissing (Some ''key'')
   \<and> emptyResponseService ''key'' (take 8000 ''Market data.'') = Inr Absent
   \<and> generateEmbedding (Some ''key'') emptyResponseService ''Market data.'' = Inr Absent
   \<and> generateEmbedding (Some ''key'') emptyResponseService ''Market data.''
       \<noteq> Inr (Vector (generateKeywordVector ''Market data.''))"
  by (simp add: generateEmbedding_def tryCatch_def keyMissing_def emptyResponseService_def)

text \<open>
  The match count is a count of occurrences: it is zero exactly when the word does not
  occur in the text, and the matches counted do not overlap, so that together they fit
  into the text. The word \<^verbatim>\<open>treatment\<close> ends with the letter it starts with; two
  occurrences that share that letter count once.
\<close>

lemma matchCount_unfold:
  "matchCount keyword s =
     (if keyword = [] then Suc (length s)
      else if s = [] then 0
      else if prefix keyword s then Suc (matchCount keyword (drop (length keyword) s))
      else matchCount keyword (tl s))"
  by (rule matchCount.simps)

lemma matchCount_Nil: "keyword \<noteq> [] \<Longrightarrow> matchCount keyword [] = 0"
  by (subst matchCount_unfold) simp

lemma matchCount_prefix:
  "keyword \<noteq> [] \<Longrightarrow> s \<noteq> [] \<Longrightarrow> prefix keyword s
   \<Longrightarrow> matchCount keyword s = Suc (matchCount keyword (drop (length keyword) s))"
  by (subst matchCount_unfold) simp

lemma matchCount_skip:
  "keyword \<noteq> [] \<Longrightarrow> s \<noteq> [] \<Longrightarrow> \<not> prefix keyword s
   \<Longrightarrow> matchCount keyword s = matchCount keyword (tl s)"
  by (subst matchCount_unfold) simp

lemma matchCount_bound:
  "keyword \<noteq> [] \<Longrightarrow> matchCount keyword s * length keyword \<le> length s"
proof (induction keyword s rule: matchCount.induct)
  case (1 keyword s)
  show ?case
  proof (cases "s = []")
    case True
    then show ?thesis using "1.prems" by (subst matchCount_unfold) simp
  next
    case False
    show ?thesis
    proof (cases "prefix keyword s")
      case True
      then have l: "length keyword \<le> length s" by (rule prefix_length_le)
      have "matchCount keyword s = Suc (matchCount keyword (drop (length keyword) s))"
        using "1.prems" False True by (subst matchCount_unfold) simp
      moreover have "matchCount keyword (drop (length keyword) s) * length keyword
                     \<le> length s - length keyword"
        using "1.IH"(1) [OF "1.prems" False True "1.prems"] by simp
      ultimately show ?thesis using l by simp
    next
      case np: False
      have "matchCount keyword s = matchCount keyword (tl s)"
        using "1.prems" False np by (subst matchCount_unfold) simp
      moreover have "matchCount keyword (tl s) * length keyword \<le> length (tl s)"
        using "1.IH"(2) [OF "1.prems" False np "1.prems"] .
      ultimately show ?thesis by simp
    qed
  qed
qed

lemma matchCount_zero_iff:
  "keyword \<noteq> [] \<Longrightarrow> matchCount keyword s = 0 \<longleftrightarrow> \<not> sublist keyword s"
proof (induction keyword s rule: matchCount.induct)
  case (1 keyword s)
  show ?case
  proof (cases "s = []")
    case True
    then show ?thesis using "1.prems" by (subst matchCount_unfold) simp
  next
    case False
    show ?thesis
    proof (cases "prefix keyword s")
      case True
      have "matchCount keyword s = Suc (matchCount keyword (drop (length keyword) s))"
        using "1.prems" False True by (subst matchCount_unfold) simp
      moreover have "sublist keyword s" using True by (rule prefix_imp_sublist)
      ultimately show ?thesis by simp
    next
      case np: False
      obtain c cs where s: "s = c # cs" using False by (cases s) auto
      have "matchCount keyword s = matchCount keyword (tl s)"
        using "1.prems" False np by (subst matchCount_unfold) simp
      moreover have "sublist keyword s \<longleftrightarrow> sublist keyword (tl s)"
        using np s by (simp add: sublist_Cons_right)
      ultimately show ?thesis
        using "1.IH"(2) [OF "1.prems" False np "1.prems"] by simp
    qed
  qed
qed

lemma matchCount_shared_letter: "matchCount ''treatment'' ''treatmentreatment'' = 1"
  by (simp add: matchCount.simps)

text \<open>
  Lowering a text and then looking for a word of small letters finds the places where
  the word stands in the text as given, capitals or not.
\<close>

lemma lowerChar_small:
  assumes "97 \<le> (of_char d :: nat)" and "(of_char d :: nat) \<le> 122"
  shows "lowerChar c = d \<longleftrightarrow> sameLetter c d"
proof -
  let ?n = "of_char c :: nat"
  have b: "?n < 256" by simp
  have e: "lowerChar c = d \<longleftrightarrow> (of_char (lowerChar c) :: nat) = of_char d" by simp
  have s: "c = d \<longleftrightarrow> ?n = of_char d" by simp
  show ?thesis
  proof (cases "(65 \<le> ?n \<and> ?n \<le> 90) \<or> (192 \<le> ?n \<and> ?n \<le> 222 \<and> ?n \<noteq> 215)")
    case True
    then have "(of_char (lowerChar c) :: nat) = ?n + 32"
      by (auto simp: lowerChar_def Let_def of_char_of)
    with True assms show ?thesis unfolding e sameLetter_def s by auto
  next
    case False
    then have "lowerChar c = c" by (auto simp: lowerChar_def Let_def)
    with False assms show ?thesis unfolding sameLetter_def s by auto
  qed
qed

lemma occursIgnoringCase_lowered:
  assumes "smallLetters word"
  shows "occursIgnoringCase word text p \<longleftrightarrow> occursAt word (toLowerCase text) p"
proof -
  let ?xs = "take (length word) (drop p text)"
  have "occursAt word (toLowerCase text) p \<longleftrightarrow> map lowerChar ?xs = word"
    by (simp add: occursAt_def toLowerCase_def take_map drop_map)
  also have "\<dots> \<longleftrightarrow> list_all2 (\<lambda>c d. lowerChar c = d) ?xs word"
    by (simp add: list_all2_conv_all_nth list_eq_iff_nth_eq)
  also have "\<dots> \<longleftrightarrow> list_all2 sameLetter ?xs word"
    using assms lowerChar_small
    by (auto simp: list_all2_conv_all_nth smallLetters_def list_all_length)
  finally show ?thesis by (simp add: occursIgnoringCase_def)
qed

text \<open>
  The count of the global match is the largest number of places, no two overlapping,
  at which the word occurs: scanning from the left and resuming after each match
  finds that many, and no choice of places finds more.
\<close>

lemma spacedFrom_mono: "spacedFrom width lo ps \<Longrightarrow> lo' \<le> lo \<Longrightarrow> spacedFrom width lo' ps"
  by (cases ps) auto

lemma spacedFrom_lower: "spacedFrom width lo ps \<Longrightarrow> p \<in> set ps \<Longrightarrow> lo \<le> p"
proof (induction ps arbitrary: lo)
  case Nil
  then show ?case by simp
next
  case (Cons a ps)
  then show ?case by (auto dest: Cons.IH)
qed

lemma spacedFrom_up:
  "spacedFrom width lo ps \<Longrightarrow> spacedFrom width (lo + d) (map (\<lambda>p. p + d) ps)"
proof (induction ps arbitrary: lo)
  case Nil
  then show ?case by simp
next
  case (Cons a ps)
  from Cons.prems have "lo \<le> a" "spacedFrom width (a + width) ps" by simp_all
  from Cons.IH [OF this(2)] \<open>lo \<le> a\<close> show ?case by (simp add: add.commute add.left_commute)
qed

lemma spacedFrom_down:
  "spacedFrom width lo ps \<Longrightarrow> d \<le> lo \<Longrightarrow> spacedFrom width (lo - d) (map (\<lambda>p. p - d) ps)"
proof (induction ps arbitrary: lo)
  case Nil
  then show ?case by simp
next
  case (Cons a ps)
  from Cons.prems have a: "lo \<le> a" "spacedFrom width (a + width) ps" by simp_all
  have "d \<le> a + width" using a(1) Cons.prems(2) by simp
  from Cons.IH [OF a(2) this] a(1) Cons.prems(2) show ?case by simp
qed

lemma occursAt_drop: "occursAt word (drop k s) p \<longleftrightarrow> occursAt word s (p + k)"
  by (simp add: occursAt_def)

lemma occursAt_zero: "occursAt word s 0 \<longleftrightarrow> prefix word s"
  by (auto simp: occursAt_def prefix_def) (metis append_take_drop_id)

lemma occursAt_Nil: "word \<noteq> [] \<Longrightarrow> \<not> occursAt word [] p"
  by (auto simp: occursAt_def)

lemma matchCount_places:
  "keyword \<noteq> [] \<Longrightarrow>
   \<exists>ps. disjointPlaces (occursAt keyword s) (length keyword) ps \<and> length ps = matchCount keyword s"
proof (induction keyword s rule: matchCount.induct)
  case (1 keyword s)
  let ?w = "length keyword"
  show ?case
  proof (cases "s = []")
    case True
    have "disjointPlaces (occursAt keyword s) ?w [] \<and> length ([] :: nat list) = matchCount keyword s"
      using True "1.prems" by (simp add: disjointPlaces_def matchCount_Nil)
    then show ?thesis by blast
  next
    case False
    show ?thesis
    proof (cases "prefix keyword s")
      case True
      from "1.IH"(1) [OF "1.prems" False True "1.prems"] obtain ps where
        ps: "spacedFrom ?w 0 ps" "list_all (occursAt keyword (drop ?w s)) ps"
            "length ps = matchCount keyword (drop ?w s)"
        by (auto simp: disjointPlaces_def)
      let ?qs = "0 # map (\<lambda>p. p + ?w) ps"
      have "spacedFrom ?w ?w (map (\<lambda>p. p + ?w) ps)"
        using spacedFrom_up [OF ps(1), of ?w] by simp
      moreover have "list_all (occursAt keyword s) (map (\<lambda>p. p + ?w) ps)"
        using ps(2) by (simp add: list_all_iff occursAt_drop)
      moreover have "occursAt keyword s 0" using True by (simp add: occursAt_zero)
      ultimately have "disjointPlaces (occursAt keyword s) ?w ?qs"
        by (simp add: disjointPlaces_def)
      moreover have "length ?qs = matchCount keyword s"
        using ps(3) matchCount_prefix [OF "1.prems" False True] by simp
      ultimately show ?thesis by blast
    next
      case np: False
      from "1.IH"(2) [OF "1.prems" False np "1.prems"] obtain ps where
        ps: "spacedFrom ?w 0 ps" "list_all (occursAt keyword (tl s)) ps"
            "length ps = matchCount keyword (tl s)"
        by (auto simp: disjointPlaces_def)
      let ?qs = "map (\<lambda>p. p + 1) ps"
      have "spacedFrom ?w 1 ?qs" using spacedFrom_up [OF ps(1), of 1] by simp
      then have "spacedFrom ?w 0 ?qs" by (rule spacedFrom_mono) simp
      moreover have "list_all (occursAt keyword s) ?qs"
        using ps(2) occursAt_drop [of keyword 1 s] by (simp add: list_all_iff drop_Suc)
      ultimately have "disjointPlaces (occursAt keyword s) ?w ?qs"
        by (simp add: disjointPlaces_def)
      moreover have "length ?qs = matchCount keyword s"
        using ps(3) matchCount_skip [OF "1.prems" False np] by simp
      ultimately show ?thesis by blast
    qed
  qed
qed

lemma matchCount_most:
  "keyword \<noteq> [] \<Longrightarrow>
   \<forall>ps. disjointPlaces (occursAt keyword s) (length keyword) ps \<longrightarrow> length ps \<le> matchCount keyword s"
proof (induction keyword s rule: matchCount.induct)
  case (1 keyword s)
  let ?w = "length keyword"
  show ?case
  proof (intro allI impI)
    fix ps
    assume d: "disjointPlaces (occursAt keyword s) ?w ps"
    then have sp: "spacedFrom ?w 0 ps" and oc: "list_all (occursAt keyword s) ps"
      by (simp_all add: disjointPlaces_def)
    show "length ps \<le> matchCount keyword s"
    proof (cases "s = []")
      case True
      with oc "1.prems" have "ps = []" by (cases ps) (auto simp: occursAt_Nil)
      then show ?thesis by simp
    next
      case False
      show ?thesis
      proof (cases "prefix keyword s")
        case True
        note m = matchCount_prefix [OF "1.prems" False True]
        show ?thesis
        proof (cases ps)
          case Nil
          then show ?thesis by simp
        next
          case (Cons p ps')
          with sp have s1: "spacedFrom ?w (p + ?w) ps'" by simp
          then have s2: "spacedFrom ?w ?w ps'" by (rule spacedFrom_mono) simp
          let ?qs = "map (\<lambda>q. q - ?w) ps'"
          have "spacedFrom ?w 0 ?qs" using spacedFrom_down [OF s2, of ?w] by simp
          moreover have "list_all (occursAt keyword (drop ?w s)) ?qs"
            using oc Cons spacedFrom_lower [OF s2]
            by (auto simp: list_all_iff occursAt_drop)
          ultimately have "disjointPlaces (occursAt keyword (drop ?w s)) ?w ?qs"
            by (simp add: disjointPlaces_def)
          with "1.IH"(1) [OF "1.prems" False True "1.prems"]
          have "length ?qs \<le> matchCount keyword (drop ?w s)" by blast
          with m Cons show ?thesis by simp
        qed
      next
        case np: False
        note m = matchCount_skip [OF "1.prems" False np]
        have pos: "0 < p" if "p \<in> set ps" for p
        proof (rule ccontr)
          assume "\<not> 0 < p"
          with that oc have "occursAt keyword s 0" by (auto simp: list_all_iff)
          with np show False by (simp add: occursAt_zero)
        qed
        have s1: "spacedFrom ?w 1 ps"
        proof (cases ps)
          case Nil
          then show ?thesis by simp
        next
          case (Cons p ps')
          with sp pos [of p] show ?thesis by simp
        qed
        let ?qs = "map (\<lambda>q. q - 1) ps"
        have "spacedFrom ?w 0 ?qs" using spacedFrom_down [OF s1, of 1] by simp
        moreover have "list_all (occursAt keyword (tl s)) ?qs"
          using oc pos occursAt_drop [of keyword 1 s]
          by (auto simp: list_all_iff drop_Suc)
        ultimately have "disjointPlaces (occursAt keyword (tl s)) ?w ?qs"
          by (simp add: disjointPlaces_def)
        with "1.IH"(2) [OF "1.prems" False np "1.prems"]
        have "length ?qs \<le> matchCount keyword (tl s)" by blast
        with m show ?thesis by simp
      qed
    qed
  qed
qed

lemma matchCount_largest:
  "keyword \<noteq> [] \<Longrightarrow> largestCount (occursAt keyword s) (length keyword) (matchCount keyword s)"
  unfolding largestCount_def using matchCount_places matchCount_most by blast

lemma largestCount_unique:
  "largestCount occurs width n \<Longrightarrow> largestCount occurs width m \<Longrightarrow> n = m"
  unfolding largestCount_def by (metis le_antisym)

lemma keywordList_words: "list_all (\<lambda>k. k \<noteq> [] \<and> smallLetters k) keywordList"
  by (simp add: keywordList_def smallLetters_def)

lemma keyword_component:
  assumes "i < length keywordList"
  shows "generateKeywordVector text ! i
         = num_mul (num_div (Fin (real (matchCount (keywordList ! i) (toLowerCase text))))
                            (of_length text))
                   (Fin 1000)"
  using assms by (simp add: generateKeywordVector_def Let_def)

lemma component_value:
  "keyword \<noteq> [] \<Longrightarrow>
   num_mul (num_div (Fin (real (matchCount keyword (toLowerCase text)))) (of_length text)) (Fin 1000)
   = (if text = [] then NaN
      else Fin (real (matchCount keyword (toLowerCase text)) / real (length text) * 1000))"
  by (simp add: of_length_def toLowerCase_def matchCount_Nil signed_inf_def)

text \<open>
  Claim C4. The keyword vector has one component for each of the 24 vocabulary words.
  The component of a word is \<open>n / length text * 1000\<close>, where \<open>n\<close> is the number of
  occurrences of the word in the lowered text: the largest number of places, no two
  overlapping, at which the word stands in the lowered text, which are the places
  where it stands in the text itself when the case of letters is ignored. On the
  empty text every component is \<open>0 / 0 * 1000\<close>, which is \<open>NaN\<close>. Equal texts give
  equal vectors.
\<close>

theorem generateKeywordVector_components:
  "length (generateKeywordVector text) = length keywordList
   \<and> length keywordList = 24
   \<and> (\<forall>i<length keywordList. \<exists>n.
        largestCount (occursAt (keywordList ! i) (toLowerCase text)) (length (keywordList ! i)) n
        \<and> largestCount (occursIgnoringCase (keywordList ! i) text) (length (keywordList ! i)) n
        \<and> generateKeywordVector text ! i
            = num_mul (num_div (Fin (real n)) (of_length text)) (Fin 1000)
        \<and> generateKeywordVector text ! i
            = (if text = [] then NaN else Fin (real n / real (length text) * 1000)))
   \<and> (text' = text \<longrightarrow> generateKeywordVector text' = generateKeywordVector text)"
proof -
  have l: "length (generateKeywordVector text) = length keywordList"
    by (simp add: generateKeywordVector_def Let_def)
  have k: "length keywordList = 24" by (simp add: keywordList_def)
  have c: "\<exists>n.
        largestCount (occursAt (keywordList ! i) (toLowerCase text)) (length (keywordList ! i)) n
        \<and> largestCount (occursIgnoringCase (keywordList ! i) text) (length (keywordList ! i)) n
        \<and> generateKeywordVector text ! i
            = num_mul (num_div (Fin (real n)) (of_length text)) (Fin 1000)
        \<and> generateKeywordVector text ! i
            = (if text = [] then NaN else Fin (real n / real (length text) * 1000))"
    if i: "i < length keywordList" for i
  proof -
    let ?k = "keywordList ! i"
    let ?n = "matchCount ?k (toLowerCase text)"
    from i keywordList_words have w: "?k \<noteq> []" "smallLetters ?k"
      by (simp_all add: list_all_length)
    have a: "largestCount (occursAt ?k (toLowerCase text)) (length ?k) ?n"
      using w(1) by (rule matchCount_largest)
    have "occursIgnoringCase ?k text = occursAt ?k (toLowerCase text)"
      using occursIgnoringCase_lowered [OF w(2)] by (intro ext) simp
    with a have b: "largestCount (occursIgnoringCase ?k text) (length ?k) ?n" by simp
    have v: "generateKeywordVector text ! i
             = num_mul (num_div (Fin (real ?n)) (of_length text)) (Fin 1000)"
      using i by (rule keyword_component)
    from a b v component_value [OF w(1), of "text"] show ?thesis by (intro exI [of _ "?n"]) simp
  qed
  from l k c show ?thesis by blast
qed

lemma lower_mixed: "toLowerCase mixedCaseText = ''market data and market data.''"
  unfolding mixedCaseText_def by code_simp

lemma mixed_places: "disjointPlaces (occursIgnoringCase ''data'' mixedCaseText) 4 [7, 23]"
  unfolding mixedCaseText_def by code_simp

lemma mixed_capital: "\<not> occursAt ''data'' mixedCaseText 7"
  unfolding mixedCaseText_def by code_simp

lemma mixed_count: "matchCount ''data'' ''market data and market data.'' = 2"
  by (simp add: matchCount.simps)

lemma mixed_component: "generateKeywordVector mixedCaseText ! 20 = Fin (500 / 7)"
proof -
  have h: "(20::nat) < length keywordList" by (simp add: keywordList_def)
  have k: "keywordList ! 20 = ''data''" by (simp add: keywordList_def)
  have "length mixedCaseText = 28" by (simp add: mixedCaseText_def)
  then show ?thesis
    unfolding keyword_component [OF h] k lower_mixed mixed_count
    by (simp add: of_length_def)
qed

lemma lower_survey: "toLowerCase ''Market data.'' = ''market data.''"
  by code_simp

lemma fallback_survey:
  "generateKeywordVector ''Market data.''
   = [Fin (250 / 3), Fin 0, Fin 0, Fin 0, Fin 0, Fin 0, Fin 0, Fin 0, Fin 0, Fin 0, Fin 0, Fin 0,
      Fin 0, Fin 0, Fin 0, Fin 0, Fin 0, Fin 0, Fin 0, Fin 0, Fin (250 / 3), Fin 0, Fin 0, Fin 0]"
  by (simp add: generateKeywordVector_def keywordList_def matchCount.simps lower_survey
      of_length_def)

lemma fallback_empty: "generateKeywordVector [] = replicate 24 NaN"
  by (simp add: generateKeywordVector_def keywordList_def matchCount.simps toLowerCase_def
      lowerChar_def of_length_def numeral_eq_Suc signed_inf_def)

text \<open>
  In \<^verbatim>\<open>Market Data and market DATA.\<close> the word \<^verbatim>\<open>data\<close> stands at the indices 7
  and 23, both times with capitals; its component is \<open>2 / 28 * 1000\<close>.
\<close>

theorem generateKeywordVector_components_witness:
  "(20::nat) < length keywordList
   \<and> keywordList ! 20 = ''data''
   \<and> disjointPlaces (occursIgnoringCase ''data'' mixedCaseText) 4 [7, 23]
   \<and> \<not> occursAt ''data'' mixedCaseText 7
   \<and> (\<exists>n. 2 \<le> n
          \<and> generateKeywordVector mixedCaseText ! 20
              = Fin (real n / real (length mixedCaseText) * 1000))
   \<and> generateKeywordVector mixedCaseText ! 20 = Fin (500 / 7)
   \<and> generateKeywordVector [] ! 20 = NaN"
proof -
  have h: "(20::nat) < length keywordList" by (simp add: keywordList_def)
  have k: "keywordList ! 20 = ''data''" by (simp add: keywordList_def)
  have ne: "mixedCaseText \<noteq> []" by (simp add: mixedCaseText_def)
  from generateKeywordVector_components [of mixedCaseText mixedCaseText] h obtain n where
    n: "largestCount (occursIgnoringCase (keywordList ! 20) mixedCaseText)
          (length (keywordList ! 20)) n"
       "generateKeywordVector mixedCaseText ! 20
          = (if mixedCaseText = [] then NaN
             else Fin (real n / real (length mixedCaseText) * 1000))"
    by blast
  have "length ''data'' = 4" by simp
  with n(1) have lc: "largestCount (occursIgnoringCase ''data'' mixedCaseText) 4 n"
    unfolding k by (simp only:)
  with mixed_places have "2 \<le> n" unfolding largestCount_def by fastforce
  moreover from n(2) ne have "generateKeywordVector mixedCaseText ! 20
              = Fin (real n / real (length mixedCaseText) * 1000)" by simp
  moreover from generateKeywordVector_components [of "[]" "[]"] h obtain m where
    "generateKeywordVector [] ! 20
       = (if ([] :: string) = [] then NaN else Fin (real m / real (length ([] :: string)) * 1000))"
    by blast
  then have "generateKeywordVector [] ! 20 = NaN" by simp
  ultimately show ?thesis using h k mixed_places mixed_capital mixed_component by blast
qed

subsection \<open>The query\<close>

text \<open>
  \<^verbatim>\<open>slice(0, limit)\<close> keeps the first \<open>limit\<close> elements when the limit is not
  negative; a negative limit drops that many elements from the end instead.
\<close>

lemma sliceFromStart_nonneg: "0 \<le> limit \<Longrightarrow> sliceFromStart xs limit = take (nat limit) xs"
  by (simp add: sliceFromStart_def)

lemma set_sliceFromStart: "set (sliceFromStart xs limit) \<subseteq> set xs"
  by (auto simp: sliceFromStart_def dest: in_set_takeD)

text \<open>
  A query can be scored when the query embedding and the embedding of every stored
  chunk are there. Otherwise the read of \<^verbatim>\<open>length\<close> in \<^verbatim>\<open>calculateSimilarity\<close>
  throws, and the \<^verbatim>\<open>catch\<close> of \<^verbatim>\<open>retrieveRelevantContext\<close> answers with the empty
  list and leaves the counter alone.
\<close>

lemma scoreOf_withSimilarity [simp]: "scoreOf (withSimilarity doc s) = (doc, s)"
  by (simp add: scoreOf_def)

lemma scoreAll_scorable:
  assumes "list_all (\<lambda>doc. embedding doc \<noteq> Absent) store"
  shows "scoreAll (Vector q) store = Inr (map (\<lambda>doc. withSimilarity doc (similarityTo q doc)) store)"
  using assms
proof (induction store)
  case Nil
  show ?case by simp
next
  case (Cons doc docs)
  then obtain v where "embedding doc = Vector v" by (cases "embedding doc") auto
  then show ?case using Cons by (simp add: calculateSimilarityOf_def similarityTo_def)
qed

lemma scoreAll_Absent_query: "store \<noteq> [] \<Longrightarrow> \<exists>e. scoreAll Absent store = Inl e"
  by (cases store) (simp_all add: calculateSimilarityOf_def)

lemma scoreAll_Absent_chunk:
  "\<not> list_all (\<lambda>doc. embedding doc \<noteq> Absent) store \<Longrightarrow> \<exists>e. scoreAll q store = Inl e"
proof (induction store)
  case Nil
  then show ?case by simp
next
  case (Cons doc docs)
  show ?case
  proof (cases "calculateSimilarityOf q (embedding doc)")
    case (Inl e)
    then show ?thesis by simp
  next
    case (Inr s)
    then have "embedding doc \<noteq> Absent"
      by (auto simp: calculateSimilarityOf_def split: embeddingValue.splits)
    then have "\<not> list_all (\<lambda>doc. embedding doc \<noteq> Absent) docs" using Cons.prems by simp
    from Cons.IH [OF this] show ?thesis using Inr by auto
  qed
qed

lemma retrieve_unscorable:
  assumes "generateEmbedding apiKey post query = Inr e" and "\<not> scorable e (documentStore st)"
  shows "retrieveRelevantContext apiKey post st query limit = ([], st)"
proof (cases "documentStore st = []")
  case True
  then show ?thesis by (simp add: retrieveRelevantContext_def)
next
  case False
  have "\<exists>x. scoreAll e (documentStore st) = Inl x"
  proof (cases e)
    case Absent
    then show ?thesis using scoreAll_Absent_query [OF False] by simp
  next
    case (Vector q)
    then show ?thesis using assms(2) scoreAll_Absent_chunk by (simp add: scorable_def)
  qed
  then show ?thesis using False assms(1) by (auto simp: retrieveRelevantContext_def)
qed

lemma retrieve_fst:
  assumes "generateEmbedding apiKey post query = Inr (Vector q)"
    and "list_all (\<lambda>doc. embedding doc \<noteq> Absent) (documentStore st)"
  shows "fst (retrieveRelevantContext apiKey post st query limit)
         = sliceFromStart (jsSort byDescendingSimilarity
              (filter (\<lambda>r. num_gt (similarity r) (similarityThreshold st))
                 (map (\<lambda>doc. withSimilarity doc (similarityTo q doc)) (documentStore st)))) limit"
  using assms
  by (simp add: retrieveRelevantContext_def scoreAll_scorable sliceFromStart_def Let_def)

lemma map_scoreOf_filter:
  "map scoreOf (filter (\<lambda>r. num_gt (similarity r) thr)
                  (map (\<lambda>doc. withSimilarity doc (similarityTo q doc)) store))
   = scoredAbove q thr store"
  by (induction store) (simp_all add: scoredAbove_def)

lemma map_fst_filter_scoreOf:
  "map fst (filter (\<lambda>p. snd p = s) (map scoreOf xs))
   = map chunk.truncate (filter (\<lambda>r. similarity r = s) xs)"
  by (induction xs) (simp_all add: scoreOf_def)

lemma ranking_characterised:
  assumes abv: "abv = filter (\<lambda>r. num_gt (similarity r) thr)
                       (map (\<lambda>doc. withSimilarity doc (similarityTo q doc)) store)"
  shows "mset (map scoreOf (jsSort byDescendingSimilarity abv)) = mset (scoredAbove q thr store)
       \<and> sorted_wrt (\<lambda>a b. num_ge (similarity a) (similarity b)) (jsSort byDescendingSimilarity abv)
       \<and> (\<forall>s. map chunk.truncate (filter (\<lambda>r. similarity r = s) (jsSort byDescendingSimilarity abv))
              = map fst (filter (\<lambda>p. snd p = s) (scoredAbove q thr store)))"
proof -
  have nn: "\<forall>r\<in>set abv. similarity r \<noteq> NaN"
    using num_gt_not_NaN by (auto simp: abv)
  have sc: "map scoreOf abv = scoredAbove q thr store"
    unfolding abv by (rule map_scoreOf_filter)
  have "mset (map scoreOf (jsSort byDescendingSimilarity abv)) = mset (map scoreOf abv)"
    by (simp add: mset_jsSort)
  then have a: "mset (map scoreOf (jsSort byDescendingSimilarity abv)) = mset (scoredAbove q thr store)"
    by (simp only: sc)
  have b: "sorted_wrt (\<lambda>a b. num_ge (similarity a) (similarity b)) (jsSort byDescendingSimilarity abv)"
    using nn by (intro descending_ge descending_jsSort) (simp_all add: set_jsSort)
  have c: "map chunk.truncate (filter (\<lambda>r. similarity r = s) (jsSort byDescendingSimilarity abv))
            = map fst (filter (\<lambda>p. snd p = s) (scoredAbove q thr store))" for s
  proof -
    have "filter (\<lambda>r. similarity r = s) (jsSort byDescendingSimilarity abv)
          = filter (\<lambda>r. similarity r = s) abv"
      using nn by (rule stable_jsSort)
    then show ?thesis using map_fst_filter_scoreOf [of s abv] by (simp only: sc)
  qed
  from a b c show ?thesis by blast
qed

text \<open>
  The store of the specification's example: similarities 0.9, 0.5, 0.5 and 0.2 to the
  query, threshold 0.4.
\<close>

lemma ranking_embedding:
  "generateEmbedding (Some ''key'') (fixedService unitQuery) ''adoption'' = Inr (Vector unitQuery)"
  by (simp add: generateEmbedding_def tryCatch_def keyMissing_def fixedService_def)

lemma ranking_scorable: "scorable (Vector unitQuery) (documentStore rankingState)"
  by (simp add: scorable_def rankingState_def rankingStore_def sampleChunk_def)

lemma broken_unscorable: "\<not> scorable (Vector unitQuery) (documentStore brokenState)"
  by (simp add: scorable_def brokenState_def unembeddedChunk_def)

lemma ranking_scores:
  "map (similarityTo unitQuery) rankingStore
   = [Fin (9 / 10), Fin (5 / 10), Fin (5 / 10), Fin (2 / 10)]"
  by (simp add: rankingStore_def sampleChunk_def unitQuery_def similarityTo_def
      calculateSimilarity_def similarityLoop_def similarityStep_def sqrt_100)

lemma ranking_sorted:
  "jsSort byDescendingSimilarity
     (filter (\<lambda>r. num_gt (similarity r) (similarityThreshold rankingState))
        (map (\<lambda>doc. withSimilarity doc (similarityTo unitQuery doc)) (documentStore rankingState)))
   = [withSimilarity (sampleChunk ''a-chunk-0'' ''a'' [Fin 9, Fin 3, Fin 3, Fin 1]) (Fin (9 / 10)),
      withSimilarity (sampleChunk ''b-chunk-0'' ''b'' [Fin 5, Fin 5, Fin 5, Fin 5]) (Fin (5 / 10)),
      withSimilarity (sampleChunk ''c-chunk-0'' ''c'' [Fin 5, Fin 5, Fin 5, Fin 5]) (Fin (5 / 10))]"
  using ranking_scores
  by (simp add: rankingState_def rankingStore_def num_gt_def byDescendingSimilarity_def num_sub_def)

lemma ranking_result:
  "map scoreOf (fst (retrieveRelevantContext (Some ''key'') (fixedService unitQuery) rankingState
                       ''adoption'' 2))
   = [(sampleChunk ''a-chunk-0'' ''a'' [Fin 9, Fin 3, Fin 3, Fin 1], Fin (9 / 10)),
      (sampleChunk ''b-chunk-0'' ''b'' [Fin 5, Fin 5, Fin 5, Fin 5], Fin (5 / 10))]"
  using ranking_scorable
  by (simp add: retrieve_fst [OF ranking_embedding] scorable_def ranking_sorted sliceFromStart_def)

lemma ranking_result_negative:
  "map scoreOf (fst (retrieveRelevantContext (Some ''key'') (fixedService unitQuery) rankingState
                       ''adoption'' (- 1)))
   = [(sampleChunk ''a-chunk-0'' ''a'' [Fin 9, Fin 3, Fin 3, Fin 1], Fin (9 / 10)),
      (sampleChunk ''b-chunk-0'' ''b'' [Fin 5, Fin 5, Fin 5, Fin 5], Fin (5 / 10))]"
  using ranking_scorable
  by (simp add: retrieve_fst [OF ranking_embedding] scorable_def ranking_sorted sliceFromStart_def)

lemma broken_result:
  "fst (retrieveRelevantContext (Some ''key'') (fixedService unitQuery) brokenState ''adoption'' 2) = []"
  using retrieve_unscorable [OF ranking_embedding broken_unscorable] by simp

text \<open>
  Claim C1 as it is stated fails. With the limit \<open>-1\<close>, which
  \<^verbatim>\<open>/admin/test-vector-search\<close> passes on as it receives it, the query returns two
  chunks of the example store, not at most \<open>-1\<close> of them: all the ranked chunks but
  the last. And on a store that holds one chunk without an embedding the query
  returns nothing, although a stored chunk has a similarity above the threshold.
\<close>

theorem retrieveRelevantContext_ranking_counterexample:
  "map scoreOf (fst (retrieveRelevantContext (Some ''key'') (fixedService unitQuery) rankingState
                       ''adoption'' (- 1)))
     = [(sampleChunk ''a-chunk-0'' ''a'' [Fin 9, Fin 3, Fin 3, Fin 1], Fin (9 / 10)),
        (sampleChunk ''b-chunk-0'' ''b'' [Fin 5, Fin 5, Fin 5, Fin 5], Fin (5 / 10))]
   \<and> \<not> int (length (fst (retrieveRelevantContext (Some ''key'') (fixedService unitQuery)
                            rankingState ''adoption'' (- 1)))) \<le> - 1
   \<and> sampleChunk ''a-chunk-0'' ''a'' [Fin 9, Fin 3, Fin 3, Fin 1] \<in> set (documentStore brokenState)
   \<and> num_gt (similarityTo unitQuery (sampleChunk ''a-chunk-0'' ''a'' [Fin 9, Fin 3, Fin 3, Fin 1]))
            (similarityThreshold brokenState)
   \<and> fst (retrieveRelevantContext (Some ''key'') (fixedService unitQuery) brokenState
            ''adoption'' 2) = []"
proof -
  have "length (map scoreOf (fst (retrieveRelevantContext (Some ''key'') (fixedService unitQuery)
          rankingState ''adoption'' (- 1)))) = 2"
    by (simp only: ranking_result_negative) simp
  then have l: "\<not> int (length (fst (retrieveRelevantContext (Some ''key'') (fixedService unitQuery)
                            rankingState ''adoption'' (- 1)))) \<le> - 1"
    by simp
  have m: "sampleChunk ''a-chunk-0'' ''a'' [Fin 9, Fin 3, Fin 3, Fin 1] \<in> set (documentStore brokenState)"
    by (simp add: brokenState_def rankingStore_def)
  have g: "num_gt (similarityTo unitQuery (sampleChunk ''a-chunk-0'' ''a'' [Fin 9, Fin 3, Fin 3, Fin 1]))
            (similarityThreshold brokenState)"
    using ranking_scores by (simp add: rankingStore_def brokenState_def rankingState_def num_gt_def)
  from ranking_result_negative l m g broken_result show ?thesis by blast
qed

text \<open>
  Claim C1, amended. When the query embedding or the embedding of a stored chunk is
  missing, the result is empty. Otherwise the result is cut from the list of the
  stored chunks whose cosine similarity to the query embedding is strictly above the
  threshold, each with that similarity, in descending order of similarity and with
  chunks of equal similarity in the order of the store: the first \<open>limit\<close> entries
  of that list for a limit that is not negative, and all but the last \<open>-limit\<close>
  entries for a negative one.
\<close>

theorem retrieveRelevantContext_ranking:
  assumes "generateEmbedding apiKey post query = Inr e"
  shows "(\<not> scorable e (documentStore st)
            \<longrightarrow> fst (retrieveRelevantContext apiKey post st query limit) = [])
       \<and> (e = Vector q \<and> scorable e (documentStore st) \<longrightarrow>
            (\<exists>ys. fst (retrieveRelevantContext apiKey post st query limit)
                     = (if 0 \<le> limit then take (nat limit) ys
                        else take (nat (int (length ys) + limit)) ys)
               \<and> mset (map scoreOf ys)
                   = mset (scoredAbove q (similarityThreshold st) (documentStore st))
               \<and> sorted_wrt (\<lambda>a b. num_ge (similarity a) (similarity b)) ys
               \<and> (\<forall>s. map chunk.truncate (filter (\<lambda>r. similarity r = s) ys)
                      = map fst (filter (\<lambda>p. snd p = s)
                                   (scoredAbove q (similarityThreshold st) (documentStore st))))))"
proof -
  have u: "fst (retrieveRelevantContext apiKey post st query limit) = []"
    if "\<not> scorable e (documentStore st)"
    using retrieve_unscorable [OF assms that] by simp
  have r: "\<exists>ys. fst (retrieveRelevantContext apiKey post st query limit)
                     = (if 0 \<le> limit then take (nat limit) ys
                        else take (nat (int (length ys) + limit)) ys)
               \<and> mset (map scoreOf ys)
                   = mset (scoredAbove q (similarityThreshold st) (documentStore st))
               \<and> sorted_wrt (\<lambda>a b. num_ge (similarity a) (similarity b)) ys
               \<and> (\<forall>s. map chunk.truncate (filter (\<lambda>r. similarity r = s) ys)
                      = map fst (filter (\<lambda>p. snd p = s)
                                   (scoredAbove q (similarityThreshold st) (documentStore st))))"
    if v: "e = Vector q" and s: "scorable e (documentStore st)"
  proof -
    let ?ys = "jsSort byDescendingSimilarity
                 (filter (\<lambda>r. num_gt (similarity r) (similarityThreshold st))
                    (map (\<lambda>doc. withSimilarity doc (similarityTo q doc)) (documentStore st)))"
    have "fst (retrieveRelevantContext apiKey post st query limit) = sliceFromStart ?ys limit"
      using assms v s by (intro retrieve_fst) (simp_all add: scorable_def)
    then have "fst (retrieveRelevantContext apiKey post st query limit)
               = (if 0 \<le> limit then take (nat limit) ?ys
                  else take (nat (int (length ?ys) + limit)) ?ys)"
      by (simp add: sliceFromStart_def)
    then show ?thesis
      using ranking_characterised [OF refl, of "similarityThreshold st" q "documentStore st"] by blast
  qed
  from u r show ?thesis by blast
qed

text \<open>
  On the example store with limit 2 the result is the chunk of similarity 0.9 and
  then the chunk of similarity 0.5 that was stored first.
\<close>

theorem retrieveRelevantContext_ranking_witness:
  "generateEmbedding (Some ''key'') (fixedService unitQuery) ''adoption'' = Inr (Vector unitQuery)
   \<and> scorable (Vector unitQuery) (documentStore rankingState)
   \<and> \<not> scorable (Vector unitQuery) (documentStore brokenState)
   \<and> fst (retrieveRelevantContext (Some ''key'') (fixedService unitQuery) brokenState ''adoption'' 2)
       = []
   \<and> map scoreOf (fst (retrieveRelevantContext (Some ''key'') (fixedService unitQuery) rankingState
                         ''adoption'' 2))
       = [(sampleChunk ''a-chunk-0'' ''a'' [Fin 9, Fin 3, Fin 3, Fin 1], Fin (9 / 10)),
          (sampleChunk ''b-chunk-0'' ''b'' [Fin 5, Fin 5, Fin 5, Fin 5], Fin (5 / 10))]
   \<and> (\<exists>ys. fst (retrieveRelevantContext (Some ''key'') (fixedService unitQuery) rankingState
                 ''adoption'' 2) = take 2 ys
      \<and> mset (map scoreOf ys)
          = mset (scoredAbove unitQuery (similarityThreshold rankingState)
                    (documentStore rankingState))
      \<and> sorted_wrt (\<lambda>a b. num_ge (similarity a) (similarity b)) ys
      \<and> (\<forall>s. map chunk.truncate (filter (\<lambda>r. similarity r = s) ys)
             = map fst (filter (\<lambda>p. snd p = s)
                          (scoredAbove unitQuery (similarityThreshold rankingState)
                             (documentStore rankingState)))))"
proof -
  note e = ranking_embedding
  from retrieveRelevantContext_ranking [OF e, of rankingState 2 unitQuery]
  have a: "\<exists>ys. fst (retrieveRelevantContext (Some ''key'') (fixedService unitQuery) rankingState
                 ''adoption'' 2) = take 2 ys
      \<and> mset (map scoreOf ys)
          = mset (scoredAbove unitQuery (similarityThreshold rankingState)
                    (documentStore rankingState))
      \<and> sorted_wrt (\<lambda>a b. num_ge (similarity a) (similarity b)) ys
      \<and> (\<forall>s. map chunk.truncate (filter (\<lambda>r. similarity r = s) ys)
             = map fst (filter (\<lambda>p. snd p = s)
                          (scoredAbove unitQuery (similarityThreshold rankingState)
                             (documentStore rankingState))))"
    using ranking_scorable by simp
  from retrieveRelevantContext_ranking [OF e, of brokenState 2 unitQuery]
  have b: "fst (retrieveRelevantContext (Some ''key'') (fixedService unitQuery) brokenState
                 ''adoption'' 2) = []"
    using broken_unscorable by blast
  from a b e ranking_scorable broken_unscorable ranking_result show ?thesis by blast
qed

subsection \<open>A vector of norm zero\<close>

lemma zeroish_mul_left: "zeroish (num_mul (Fin 0) y)"
  by (cases y) (simp_all add: zeroish_def signed_inf_def)

lemma zeroish_mul_right: "zeroish (num_mul y (Fin 0))"
  by (cases y) (simp_all add: zeroish_def signed_inf_def)

lemma zeroish_add: "zeroish x \<Longrightarrow> zeroish y \<Longrightarrow> zeroish (num_add x y)"
  by (auto simp: zeroish_def)

lemma zeroish_div: "zeroish x \<Longrightarrow> zeroish y \<Longrightarrow> num_div x y = NaN"
  by (auto simp: zeroish_def signed_inf_def)

lemma similarityLoop_Suc:
  "similarityLoop v1 v2 (Suc n) = similarityStep v1 v2 (similarityLoop v1 v2 n) n"
  by (simp add: similarityLoop_def)

lemma similarityLoop_zero_left:
  assumes "zeroNorm v1" "n \<le> length v1"
  shows "zeroish (fst (similarityLoop v1 v2 n)) \<and> fst (snd (similarityLoop v1 v2 n)) = Fin 0"
  using assms(2)
proof (induction n)
  case 0
  show ?case by (simp add: similarityLoop_def zeroish_def)
next
  case (Suc n)
  then have "v1 ! n = Fin 0" using assms(1) by (simp add: Suc_le_eq zeroNorm_def list_all_length)
  then show ?case using Suc zeroish_mul_left [of "v2 ! n"]
    by (auto simp: similarityLoop_Suc similarityStep_def split: prod.splits intro: zeroish_add)
qed

lemma similarityLoop_zero_right:
  assumes "zeroNorm v2" "n \<le> length v2"
  shows "zeroish (fst (similarityLoop v1 v2 n)) \<and> snd (snd (similarityLoop v1 v2 n)) = Fin 0"
  using assms(2)
proof (induction n)
  case 0
  show ?case by (simp add: similarityLoop_def zeroish_def)
next
  case (Suc n)
  then have "v2 ! n = Fin 0" using assms(1) by (simp add: Suc_le_eq zeroNorm_def list_all_length)
  then show ?case using Suc zeroish_mul_right [of "v1 ! n"]
    by (auto simp: similarityLoop_Suc similarityStep_def split: prod.splits intro: zeroish_add)
qed

lemma zeroish_sqrt_mul_left: "zeroish (num_mul (num_sqrt (Fin 0)) (num_sqrt y))"
  by (cases y) (simp_all add: zeroish_def signed_inf_def)

lemma zeroish_sqrt_mul_right: "zeroish (num_mul (num_sqrt y) (num_sqrt (Fin 0)))"
  by (cases y) (simp_all add: zeroish_def signed_inf_def)

lemma calculateSimilarity_zero_norm:
  assumes "length v1 = length v2" and "zeroNorm v1 \<or> zeroNorm v2"
  shows "calculateSimilarity v1 v2 = NaN"
proof -
  obtain d n1 n2 where l: "similarityLoop v1 v2 (length v1) = (d, n1, n2)"
    by (cases "similarityLoop v1 v2 (length v1)") auto
  from assms(2) show ?thesis
  proof
    assume "zeroNorm v1"
    from similarityLoop_zero_left [OF this, of "length v1" v2] l
    have "zeroish d" "n1 = Fin 0" by simp_all
    then show ?thesis using assms(1) l zeroish_sqrt_mul_left [of n2]
      by (simp add: calculateSimilarity_def zeroish_div del: num_sqrt.simps)
  next
    assume "zeroNorm v2"
    from similarityLoop_zero_right [OF this, of "length v1" v1] l assms(1)
    have "zeroish d" "n2 = Fin 0" by simp_all
    then show ?thesis using assms(1) l zeroish_sqrt_mul_right [of n1]
      by (simp add: calculateSimilarity_def zeroish_div del: num_sqrt.simps)
  qed
qed

lemma retrieve_member:
  assumes "generateEmbedding apiKey post query = Inr (Vector q)"
    and "r \<in> set (fst (retrieveRelevantContext apiKey post st query limit))"
  shows "\<exists>d\<in>set (documentStore st).
           scoreOf r = (d, similarityTo q d) \<and> num_gt (similarityTo q d) (similarityThreshold st)"
proof (cases "scorable (Vector q) (documentStore st)")
  case False
  from retrieve_unscorable [OF assms(1) False] assms(2) show ?thesis by simp
next
  case True
  let ?xs = "filter (\<lambda>r. num_gt (similarity r) (similarityThreshold st))
                 (map (\<lambda>doc. withSimilarity doc (similarityTo q doc)) (documentStore st))"
  from True assms have "r \<in> set ?xs"
    using set_sliceFromStart [of "jsSort byDescendingSimilarity ?xs" limit]
    by (auto simp: retrieve_fst scorable_def set_jsSort simp del: set_filter)
  then show ?thesis by auto
qed

text \<open>
  Claim C10. For two vectors of equal length one of which has norm zero (all of its
  components are zero), \<^verbatim>\<open>calculateSimilarity\<close> divides zero by zero and returns
  \<open>NaN\<close>, which is no number between -1 and 1 and is above no threshold; a stored
  chunk with such an embedding is in no query result, whatever the threshold and the
  limit.
\<close>

theorem zero_norm_chunk_excluded:
  assumes "length v1 = length v2" and "zeroNorm v1 \<or> zeroNorm v2"
  shows "calculateSimilarity v1 v2 = NaN
       \<and> \<not> num_gt (calculateSimilarity v1 v2) threshold
       \<and> (generateEmbedding apiKey post query = Inr (Vector v1) \<and> embedding doc = Vector v2
            \<longrightarrow> (\<forall>r\<in>set (fst (retrieveRelevantContext apiKey post st query limit)).
                   chunk.truncate r \<noteq> doc))"
proof -
  have n: "calculateSimilarity v1 v2 = NaN"
    using assms by (rule calculateSimilarity_zero_norm)
  have "chunk.truncate r \<noteq> doc"
    if e: "generateEmbedding apiKey post query = Inr (Vector v1)" and d: "embedding doc = Vector v2"
      and r: "r \<in> set (fst (retrieveRelevantContext apiKey post st query limit))" for r
  proof
    assume t: "chunk.truncate r = doc"
    from retrieve_member [OF e r] obtain d' where
      "scoreOf r = (d', similarityTo v1 d')"
      "num_gt (similarityTo v1 d') (similarityThreshold st)" by blast
    with t d n show False using num_gt_not_NaN by (auto simp: scoreOf_def similarityTo_def)
  qed
  with n show ?thesis using num_gt_not_NaN by auto
qed

lemma fallback_plain: "generateKeywordVector ''Hello world.'' = replicate 24 (Fin 0)"
  by (simp add: generateKeywordVector_def keywordList_def matchCount.simps toLowerCase_def
      lowerChar_def of_length_def numeral_eq_Suc)

lemma length_generateKeywordVector: "length (generateKeywordVector text) = 24"
  by (simp add: generateKeywordVector_def keywordList_def Let_def)

lemma fallback_query:
  "generateEmbedding None post ''Market data.''
   = Inr (Vector (generateKeywordVector ''Market data.''))"
  by (simp add: generateEmbedding_def tryCatch_def keyMissing_def)

lemma survey_self_similarity:
  "calculateSimilarity (generateKeywordVector ''Market data.'') (generateKeywordVector ''Market data.'') = Fin 1"
  by (simp add: fallback_survey calculateSimilarity_def similarityLoop_def similarityStep_def
      numeral_eq_Suc)

lemma survey_plain_similarity:
  "calculateSimilarity (generateKeywordVector ''Market data.'') (generateKeywordVector ''Hello world.'') = NaN"
  by (rule calculateSimilarity_zero_norm)
     (simp_all add: length_generateKeywordVector fallback_plain zeroNorm_def numeral_eq_Suc)

lemma fallback_result:
  "fst (retrieveRelevantContext None failingService fallbackState ''Market data.'' 5)
   = [withSimilarity (sampleChunk ''survey-chunk-0'' ''survey'' (generateKeywordVector ''Market data.'')) (Fin 1)]"
  by (simp add: retrieveRelevantContext_def fallback_query fallbackState_def fallbackStore_def
      sampleChunk_def calculateSimilarityOf_def survey_self_similarity survey_plain_similarity
      sliceFromStart_def num_gt_def Let_def)

text \<open>
  The fallback vector of a text without vocabulary words against the fallback vector
  of a query, with a threshold of -1 that every number of [-1, 1] but -1 passes: the
  query returns the other chunk only.
\<close>

theorem zero_norm_chunk_excluded_witness:
  "length (generateKeywordVector ''Market data.'') = length (generateKeywordVector ''Hello world.'')
   \<and> (zeroNorm (generateKeywordVector ''Market data.'') \<or> zeroNorm (generateKeywordVector ''Hello world.''))
   \<and> generateEmbedding None failingService ''Market data.''
       = Inr (Vector (generateKeywordVector ''Market data.''))
   \<and> embedding (sampleChunk ''plain-chunk-0'' ''plain'' (generateKeywordVector ''Hello world.''))
       = Vector (generateKeywordVector ''Hello world.'')
   \<and> calculateSimilarity (generateKeywordVector ''Market data.'') (generateKeywordVector ''Hello world.'') = NaN
   \<and> \<not> num_gt (calculateSimilarity (generateKeywordVector ''Market data.'')
                 (generateKeywordVector ''Hello world.'')) (Fin (- 1))
   \<and> fst (retrieveRelevantContext None failingService fallbackState ''Market data.'' 5)
       = [withSimilarity (sampleChunk ''survey-chunk-0'' ''survey''
                            (generateKeywordVector ''Market data.'')) (Fin 1)]
   \<and> sampleChunk ''plain-chunk-0'' ''plain'' (generateKeywordVector ''Hello world.'')
       \<notin> set (map chunk.truncate
                  (fst (retrieveRelevantContext None failingService fallbackState ''Market data.'' 5)))"
proof -
  have h1: "length (generateKeywordVector ''Market data.'') = length (generateKeywordVector ''Hello world.'')"
    by (simp add: length_generateKeywordVector)
  have z: "zeroNorm (generateKeywordVector ''Hello world.'')"
    by (simp add: fallback_plain zeroNorm_def numeral_eq_Suc)
  then have h2: "zeroNorm (generateKeywordVector ''Market data.'') \<or> zeroNorm (generateKeywordVector ''Hello world.'')"
    by simp
  have e: "embedding (sampleChunk ''plain-chunk-0'' ''plain'' (generateKeywordVector ''Hello world.''))
       = Vector (generateKeywordVector ''Hello world.'')"
    by (simp add: sampleChunk_def)
  from zero_norm_chunk_excluded [OF h1 h2, of "Fin (- 1)" None failingService "''Market data.''"
      "sampleChunk ''plain-chunk-0'' ''plain'' (generateKeywordVector ''Hello world.'')"
      fallbackState 5] h1 h2 e fallback_query [of failingService] fallback_result
  show ?thesis by auto
qed

subsection \<open>The delete handler\<close>

lemma length_filter_removed:
  "length xs - length (filter (\<lambda>x. \<not> P x) xs) = length (filter P xs)"
  using sum_length_filter_compl [of P xs] by simp

lemma splice_one_in_bounds:
  assumes "i < length xs"
  shows "splice_js xs (Fin (real i)) (Suc 0) = ([xs ! i], take i xs @ drop (Suc i) xs)"
proof -
  have "truncateReal (real i) = int i" by (simp add: truncateReal_def)
  then have s: "spliceStart (Fin (real i)) (length xs) = i" using assms by simp
  have "take 1 (drop i xs) = [xs ! i]"
    using assms by (simp add: Cons_nth_drop_Suc [symmetric])
  then show ?thesis using assms s by (simp add: splice_js_def Let_def min_def)
qed

lemma splice_NaN: "splice_js xs NaN (Suc 0) = (take 1 xs, drop 1 xs)"
  by (cases xs) (simp_all add: splice_js_def)

text \<open>
  Claim C5. When the index parameter reads as an index \<open>i\<close> inside the registry, the
  handler answers 200, removes the example at \<open>i\<close> from the registry and every chunk
  whose \<^verbatim>\<open>fileName\<close> is that of the removed example from the store, and reports that
  file name, the number of chunks removed and the number of examples left.
\<close>

theorem deleteTrainingExample_cascade:
  assumes "parseInt indexParam = Fin (real i)" and "i < length (trainingExamples st)"
  shows "deleteTrainingExample indexParam st =
     (Deleted200
        \<lparr>deletedFile = ex_fileName (trainingExamples st ! i),
         removedChunks = length (filter (\<lambda>doc. fileName doc = ex_fileName (trainingExamples st ! i))
                                   (documentStore st)),
         remainingCount = length (trainingExamples st) - 1\<rparr>,
      st\<lparr>trainingExamples := take i (trainingExamples st) @ drop (Suc i) (trainingExamples st),
         documentStore := filter (\<lambda>doc. fileName doc \<noteq> ex_fileName (trainingExamples st ! i))
                            (documentStore st)\<rparr>)"
proof -
  have g: "\<not> (num_lt (Fin (real i)) (Fin 0) \<or> num_ge (Fin (real i)) (of_length (trainingExamples st)))"
    using assms(2) by (simp add: num_ge_def of_length_def)
  have l: "length (take i (trainingExamples st) @ drop (Suc i) (trainingExamples st))
           = length (trainingExamples st) - 1"
    using assms(2) by (simp add: min_def)
  show ?thesis
    using g l assms
    by (simp add: deleteTrainingExample_def splice_one_in_bounds length_filter_removed Let_def
        del: length_append)
qed

text \<open>\<^verbatim>\<open>parseInt\<close> on sample parameters.\<close>

lemma parseInt_neg: "parseInt '' -12px'' = Fin (- 12)"
  by (simp add: parseInt_def trimStart_def isWhiteSpace_def isRadixDigit_def digitValue_def
      digitsValue_def Let_def)

lemma parseInt_hex: "parseInt ''0x1F'' = Fin 31"
  by (simp add: parseInt_def trimStart_def isWhiteSpace_def isRadixDigit_def digitValue_def
      digitsValue_def Let_def)

text \<open>
  Claim C6. When the index parameter reads as a number below zero or not below the
  length of the registry, the handler answers 404 and the state is the prior state.
\<close>

theorem deleteTrainingExample_out_of_bounds:
  assumes "parseInt indexParam = Fin r" and "r < 0 \<or> real (length (trainingExamples st)) \<le> r"
  shows "deleteTrainingExample indexParam st = (NotFound404, st)"
  using assms by (auto simp: deleteTrainingExample_def num_ge_def of_length_def)

text \<open>
  Claim C9. When the index parameter does not read as a number, \<^verbatim>\<open>parseInt\<close> gives
  \<open>NaN\<close>, both comparisons of the guard are false and the answer is never 404; with a
  registry that is not empty the first example is removed together with its chunks and
  the answer is 200. (On the empty registry nothing is removed, the read of
  \<^verbatim>\<open>removed.fileName\<close> throws and the answer is 500 with the state unchanged.)
\<close>

theorem deleteTrainingExample_NaN_index:
  assumes "parseInt indexParam = NaN"
  shows "fst (deleteTrainingExample indexParam st) \<noteq> NotFound404
       \<and> (trainingExamples st \<noteq> [] \<longrightarrow>
            deleteTrainingExample indexParam st =
              (Deleted200
                 \<lparr>deletedFile = ex_fileName (hd (trainingExamples st)),
                  removedChunks =
                    length (filter (\<lambda>doc. fileName doc = ex_fileName (hd (trainingExamples st)))
                              (documentStore st)),
                  remainingCount = length (trainingExamples st) - 1\<rparr>,
               st\<lparr>trainingExamples := tl (trainingExamples st),
                  documentStore :=
                    filter (\<lambda>doc. fileName doc \<noteq> ex_fileName (hd (trainingExamples st)))
                      (documentStore st)\<rparr>))
       \<and> (trainingExamples st = [] \<longrightarrow> deleteTrainingExample indexParam st = (Failed500, st))"
proof (cases "trainingExamples st")
  case Nil
  then show ?thesis using assms
    by (simp add: deleteTrainingExample_def splice_NaN num_ge_def)
next
  case (Cons x xs)
  then show ?thesis using assms
    by (simp add: deleteTrainingExample_def splice_NaN num_ge_def length_filter_removed Let_def)
qed


lemma parseInt_one: "parseInt ''1'' = Fin (real (Suc 0))"
  by (simp add: parseInt_def trimStart_def isWhiteSpace_def isRadixDigit_def digitValue_def
      digitsValue_def Let_def)

lemma parseInt_seven: "parseInt ''7'' = Fin 7"
  by (simp add: parseInt_def trimStart_def isWhiteSpace_def isRadixDigit_def digitValue_def
      digitsValue_def Let_def)

lemma parseInt_letters: "parseInt ''abc'' = NaN"
  by (simp add: parseInt_def trimStart_def isWhiteSpace_def isRadixDigit_def digitValue_def
      digitsValue_def Let_def)

text \<open>
  Deleting the upload that has three chunks in the store: the three chunks are gone,
  the chunk of the other upload stays, and the report counts 3.
\<close>

theorem deleteTrainingExample_cascade_witness:
  "parseInt ''1'' = Fin (real (Suc 0))
   \<and> Suc 0 < length (trainingExamples cascadeState)
   \<and> deleteTrainingExample ''1'' cascadeState =
       (Deleted200 \<lparr>deletedFile = ''a.txt'', removedChunks = 3, remainingCount = 1\<rparr>,
        cascadeState\<lparr>trainingExamples := [exampleB],
                     documentStore := [sampleChunk ''b.txt-chunk-0'' ''b.txt'' unitQuery]\<rparr>)"
proof -
  have h2: "Suc 0 < length (trainingExamples cascadeState)"
    by (simp add: cascadeState_def)
  from deleteTrainingExample_cascade [OF parseInt_one h2] parseInt_one h2
  show ?thesis
    by (simp add: cascadeState_def exampleA_def exampleB_def sampleChunk_def)
qed

theorem deleteTrainingExample_out_of_bounds_witness:
  "parseInt ''7'' = Fin 7
   \<and> ((7::real) < 0 \<or> real (length (trainingExamples cascadeState)) \<le> 7)
   \<and> deleteTrainingExample ''7'' cascadeState = (NotFound404, cascadeState)"
proof -
  have h2: "(7::real) < 0 \<or> real (length (trainingExamples cascadeState)) \<le> 7"
    by (simp add: cascadeState_def)
  from deleteTrainingExample_out_of_bounds [OF parseInt_seven h2] parseInt_seven h2
  show ?thesis by simp
qed

theorem deleteTrainingExample_NaN_index_witness:
  "parseInt ''abc'' = NaN
   \<and> trainingExamples cascadeState \<noteq> []
   \<and> fst (deleteTrainingExample ''abc'' cascadeState) \<noteq> NotFound404
   \<and> deleteTrainingExample ''abc'' cascadeState =
       (Deleted200 \<lparr>deletedFile = ''b.txt'', removedChunks = 1, remainingCount = 1\<rparr>,
        cascadeState\<lparr>trainingExamples := [exampleA],
                     documentStore :=
                       [sampleChunk ''a.txt-chunk-0'' ''a.txt'' unitQuery,
                        sampleChunk ''a.txt-chunk-1'' ''a.txt'' unitQuery,
                        sampleChunk ''a.txt-chunk-2'' ''a.txt'' unitQuery]\<rparr>)"
proof -
  have h2: "trainingExamples cascadeState \<noteq> []"
    by (simp add: cascadeState_def)
  from deleteTrainingExample_NaN_index [OF parseInt_letters, of cascadeState] parseInt_letters h2
  show ?thesis
    by (simp add: cascadeState_def exampleA_def exampleB_def sampleChunk_def)
qed

subsection \<open>The settings handlers\<close>

text \<open>
  Claim C7 as it is stated fails. A body whose \<^verbatim>\<open>mode\<close> is the empty string
  supplies a value that is not \<^verbatim>\<open>undefined\<close>, and \<^verbatim>\<open>mode || ragSettings.mode\<close> keeps
  the prior mode. And a property that the body leaves undefined need not keep its
  value: once \<^verbatim>\<open>/admin/update-api-settings\<close> has moved
  \<^verbatim>\<open>adminSettings.similarityThreshold\<close> to 0.5, an empty body sent to
  \<^verbatim>\<open>/admin/rag-settings\<close> moves it to 0.7, the threshold of \<^verbatim>\<open>ragSettings\<close>.
\<close>

theorem settings_merge_counterexample:
  "(emptyObject(''mode'' := Str [])) ''mode'' \<noteq> Undefined
   \<and> fst (ragSettingsHandler (emptyObject(''mode'' := Str []))
             (defaultRagSettings, defaultAdminSettings)) ''mode'' = Str ''learning''
   \<and> fst (ragSettingsHandler (emptyObject(''mode'' := Str []))
             (defaultRagSettings, defaultAdminSettings)) ''mode''
       \<noteq> mergeField ((emptyObject(''mode'' := Str [])) ''mode'') (defaultRagSettings ''mode'')
   \<and> emptyObject ''similarityThreshold'' = Undefined
   \<and> updateApiSettings numberOf numberOf halfThresholdPatch defaultAdminSettings
        ''similarityThreshold'' = Num (Fin (1 / 2))
   \<and> snd (ragSettingsHandler emptyObject
             (defaultRagSettings,
              updateApiSettings numberOf numberOf halfThresholdPatch defaultAdminSettings))
        ''similarityThreshold'' = Num (Fin (7 / 10))
   \<and> snd (ragSettingsHandler emptyObject
             (defaultRagSettings,
              updateApiSettings numberOf numberOf halfThresholdPatch defaultAdminSettings))
        ''similarityThreshold''
       \<noteq> mergeField (emptyObject ''similarityThreshold'')
            (updateApiSettings numberOf numberOf halfThresholdPatch defaultAdminSettings
               ''similarityThreshold'')"
  by (simp add: ragSettingsHandler_def updateApiSettings_def mergeField_def defaultRagSettings_def
      defaultAdminSettings_def halfThresholdPatch_def numberOf_def emptyObject_def Let_def)

lemma api_temperature:
  "updateApiSettings pInt pFloat body admin ''temperature''
     = (if body ''temperature'' \<noteq> Undefined then Num (pFloat (body ''temperature''))
        else admin ''temperature'')"
  by (simp add: updateApiSettings_def Let_def)

lemma api_ragEnabled:
  "updateApiSettings pInt pFloat body admin ''ragEnabled''
     = mergeField (body ''ragEnabled'') (admin ''ragEnabled'')"
  by (simp add: updateApiSettings_def mergeField_def Let_def)

lemma api_claudeModel:
  "updateApiSettings pInt pFloat body admin ''claudeModel''
     = (if truthy (body ''claudeModel'') then body ''claudeModel'' else admin ''claudeModel'')"
  by (simp add: updateApiSettings_def Let_def)

lemma api_maxTokens:
  "updateApiSettings pInt pFloat body admin ''maxTokens''
     = (if truthy (body ''maxTokens'') then Num (pInt (body ''maxTokens''))
        else admin ''maxTokens'')"
  by (simp add: updateApiSettings_def Let_def)

lemma api_similarityThreshold:
  "updateApiSettings pInt pFloat body admin ''similarityThreshold''
     = (if truthy (body ''similarityThreshold'')
        then Num (pFloat (body ''similarityThreshold'')) else admin ''similarityThreshold'')"
  by (simp add: updateApiSettings_def Let_def)

lemma api_maxTrainingExamples:
  "updateApiSettings pInt pFloat body admin ''maxTrainingExamples''
     = (if truthy (body ''maxTrainingExamples'')
        then Num (pInt (body ''maxTrainingExamples'')) else admin ''maxTrainingExamples'')"
  by (simp add: updateApiSettings_def Let_def)

lemma truthy_defined: "truthy v \<Longrightarrow> v \<noteq> Undefined"
  by (cases v) simp_all

lemma api_undefined_kept:
  assumes "body name = Undefined"
  shows "updateApiSettings pInt pFloat body admin name = admin name"
proof -
  have keep: "(if c then f(k := v) else f) name = f name" if "c \<longrightarrow> body k \<noteq> Undefined"
    for c k v and f :: jsobject
    using that assms by auto
  show ?thesis
    by (simp add: updateApiSettings_def Let_def keep truthy_defined)
qed

lemma api_other_kept:
  assumes "name \<notin> set [''claudeModel'', ''maxTokens'', ''temperature'', ''ragEnabled'',
                          ''similarityThreshold'', ''maxTrainingExamples'']"
  shows "updateApiSettings pInt pFloat body admin name = admin name"
proof -
  have keep: "(if c then f(k := v) else f) name = f name" if "name \<noteq> k"
    for c k v and f :: jsobject
    using that by auto
  from assms have n: "name \<noteq> ''claudeModel''" "name \<noteq> ''maxTokens''" "name \<noteq> ''temperature''"
    "name \<noteq> ''ragEnabled''" "name \<noteq> ''similarityThreshold''" "name \<noteq> ''maxTrainingExamples''"
    by auto
  show ?thesis
    by (simp only: updateApiSettings_def Let_def keep [OF n(1)] keep [OF n(2)] keep [OF n(3)]
        keep [OF n(4)] keep [OF n(5)] keep [OF n(6)])
qed

lemma rag_fields:
  "fst (ragSettingsHandler body (rag, admin)) ''enabled''
     = mergeField (body ''enabled'') (rag ''enabled'')"
  "fst (ragSettingsHandler body (rag, admin)) ''similarityThreshold''
     = mergeField (body ''similarityThreshold'') (rag ''similarityThreshold'')"
  "fst (ragSettingsHandler body (rag, admin)) ''maxExamples''
     = mergeField (body ''maxExamples'') (rag ''maxExamples'')"
  "fst (ragSettingsHandler body (rag, admin)) ''mode''
     = (if truthy (body ''mode'') then body ''mode'' else rag ''mode'')"
  by (simp_all add: ragSettingsHandler_def mergeField_def Let_def)

lemma rag_other_dropped:
  assumes "name \<notin> set [''enabled'', ''mode'', ''similarityThreshold'', ''maxExamples'']"
  shows "fst (ragSettingsHandler body (rag, admin)) name = Undefined"
  using assms by (simp add: ragSettingsHandler_def emptyObject_def Let_def)

lemma rag_admin_fields:
  "snd (ragSettingsHandler body (rag, admin)) ''ragEnabled''
     = fst (ragSettingsHandler body (rag, admin)) ''enabled''"
  "snd (ragSettingsHandler body (rag, admin)) ''similarityThreshold''
     = fst (ragSettingsHandler body (rag, admin)) ''similarityThreshold''"
  "snd (ragSettingsHandler body (rag, admin)) ''maxTrainingExamples''
     = fst (ragSettingsHandler body (rag, admin)) ''maxExamples''"
  by (simp_all add: ragSettingsHandler_def Let_def)

lemma rag_admin_other_kept:
  assumes "name \<notin> set [''ragEnabled'', ''similarityThreshold'', ''maxTrainingExamples'']"
  shows "snd (ragSettingsHandler body (rag, admin)) name = admin name"
  using assms by (simp add: ragSettingsHandler_def Let_def)

text \<open>
  Claim C7, amended. \<^verbatim>\<open>/admin/update-api-settings\<close> overwrites \<^verbatim>\<open>temperature\<close> and
  \<^verbatim>\<open>ragEnabled\<close> exactly when the body value is not undefined, overwrites
  \<^verbatim>\<open>claudeModel\<close>, \<^verbatim>\<open>maxTokens\<close>, \<^verbatim>\<open>similarityThreshold\<close> and
  \<^verbatim>\<open>maxTrainingExamples\<close> when the body value is truthy, and keeps every property
  that the body leaves undefined and every property other than these six.
  \<^verbatim>\<open>/admin/rag-settings\<close> builds \<^verbatim>\<open>ragSettings\<close> anew with four properties:
  \<^verbatim>\<open>enabled\<close>, \<^verbatim>\<open>similarityThreshold\<close> and \<^verbatim>\<open>maxExamples\<close> are the body value when
  that is not undefined and the prior value of \<^verbatim>\<open>ragSettings\<close> otherwise,
  \<^verbatim>\<open>mode\<close> is the body value when that is truthy and the prior mode otherwise. On
  every request it sets \<^verbatim>\<open>ragEnabled\<close>, \<^verbatim>\<open>similarityThreshold\<close> and
  \<^verbatim>\<open>maxTrainingExamples\<close> of \<^verbatim>\<open>adminSettings\<close> to the new \<^verbatim>\<open>enabled\<close>,
  \<^verbatim>\<open>similarityThreshold\<close> and \<^verbatim>\<open>maxExamples\<close> of \<^verbatim>\<open>ragSettings\<close>, whatever they
  were, and keeps every other property of \<^verbatim>\<open>adminSettings\<close>.
\<close>

theorem settings_merge:
  "(body name = Undefined
      \<or> name \<notin> set [''claudeModel'', ''maxTokens'', ''temperature'', ''ragEnabled'',
                       ''similarityThreshold'', ''maxTrainingExamples'']
      \<longrightarrow> updateApiSettings pInt pFloat body admin name = admin name)
   \<and> updateApiSettings pInt pFloat body admin ''temperature''
     = (if body ''temperature'' \<noteq> Undefined then Num (pFloat (body ''temperature''))
        else admin ''temperature'')
   \<and> updateApiSettings pInt pFloat body admin ''ragEnabled''
     = mergeField (body ''ragEnabled'') (admin ''ragEnabled'')
   \<and> (truthy (body ''claudeModel'') \<longrightarrow>
        updateApiSettings pInt pFloat body admin ''claudeModel'' = body ''claudeModel'')
   \<and> (truthy (body ''maxTokens'') \<longrightarrow>
        updateApiSettings pInt pFloat body admin ''maxTokens'' = Num (pInt (body ''maxTokens'')))
   \<and> (truthy (body ''similarityThreshold'') \<longrightarrow>
        updateApiSettings pInt pFloat body admin ''similarityThreshold''
          = Num (pFloat (body ''similarityThreshold'')))
   \<and> (truthy (body ''maxTrainingExamples'') \<longrightarrow>
        updateApiSettings pInt pFloat body admin ''maxTrainingExamples''
          = Num (pInt (body ''maxTrainingExamples'')))
   \<and> fst (ragSettingsHandler body (rag, admin)) ''enabled''
     = mergeField (body ''enabled'') (rag ''enabled'')
   \<and> fst (ragSettingsHandler body (rag, admin)) ''similarityThreshold''
     = mergeField (body ''similarityThreshold'') (rag ''similarityThreshold'')
   \<and> fst (ragSettingsHandler body (rag, admin)) ''maxExamples''
     = mergeField (body ''maxExamples'') (rag ''maxExamples'')
   \<and> fst (ragSettingsHandler body (rag, admin)) ''mode''
     = (if truthy (body ''mode'') then body ''mode'' else rag ''mode'')
   \<and> (name \<notin> set [''enabled'', ''mode'', ''similarityThreshold'', ''maxExamples'']
        \<longrightarrow> fst (ragSettingsHandler body (rag, admin)) name = Undefined)
   \<and> snd (ragSettingsHandler body (rag, admin)) ''ragEnabled''
     = mergeField (body ''enabled'') (rag ''enabled'')
   \<and> snd (ragSettingsHandler body (rag, admin)) ''similarityThreshold''
     = mergeField (body ''similarityThreshold'') (rag ''similarityThreshold'')
   \<and> snd (ragSettingsHandler body (rag, admin)) ''maxTrainingExamples''
     = mergeField (body ''maxExamples'') (rag ''maxExamples'')
   \<and> (name \<notin> set [''ragEnabled'', ''similarityThreshold'', ''maxTrainingExamples'']
        \<longrightarrow> snd (ragSettingsHandler body (rag, admin)) name = admin name)"
  using api_undefined_kept [of body name pInt pFloat admin]
    api_other_kept [of name pInt pFloat body admin]
    api_temperature [of pInt pFloat body admin] api_ragEnabled [of pInt pFloat body admin]
    api_claudeModel [of pInt pFloat body admin] api_maxTokens [of pInt pFloat body admin]
    api_similarityThreshold [of pInt pFloat body admin]
    api_maxTrainingExamples [of pInt pFloat body admin]
    rag_fields [of body rag admin] rag_admin_fields [of body rag admin]
    rag_other_dropped [of name body rag admin] rag_admin_other_kept [of name body rag admin]
  by presburger

text \<open>
  A body with \<^verbatim>\<open>similarityThreshold = 0\<close> sent to \<^verbatim>\<open>/admin/rag-settings\<close> sets the
  stored threshold to 0 in both objects and leaves the mode alone; a body of truthy
  values sent to \<^verbatim>\<open>/admin/update-api-settings\<close> overwrites each of them and keeps
  the system prompt; an empty body sent to \<^verbatim>\<open>/admin/rag-settings\<close> after the
  threshold of \<^verbatim>\<open>adminSettings\<close> was moved to 0.5 sets it to 0.7.
\<close>

theorem settings_merge_witness:
  "zeroThresholdPatch ''similarityThreshold'' = Num (Fin 0)
   \<and> fst (ragSettingsHandler zeroThresholdPatch (defaultRagSettings, defaultAdminSettings))
        ''similarityThreshold'' = Num (Fin 0)
   \<and> snd (ragSettingsHandler zeroThresholdPatch (defaultRagSettings, defaultAdminSettings))
        ''similarityThreshold'' = Num (Fin 0)
   \<and> zeroThresholdPatch ''mode'' = Undefined
   \<and> fst (ragSettingsHandler zeroThresholdPatch (defaultRagSettings, defaultAdminSettings))
        ''mode'' = Str ''learning''
   \<and> truthy (apiPatch ''claudeModel'') \<and> truthy (apiPatch ''maxTokens'')
   \<and> truthy (apiPatch ''similarityThreshold'') \<and> truthy (apiPatch ''maxTrainingExamples'')
   \<and> apiPatch ''systemPrompt'' = Undefined
   \<and> ''systemPrompt'' \<notin> set [''enabled'', ''mode'', ''similarityThreshold'', ''maxExamples'']
   \<and> ''systemPrompt'' \<notin> set [''ragEnabled'', ''similarityThreshold'', ''maxTrainingExamples'']
   \<and> updateApiSettings numberOf numberOf apiPatch defaultAdminSettings ''claudeModel''
       = Str ''claude-3-opus''
   \<and> updateApiSettings numberOf numberOf apiPatch defaultAdminSettings ''maxTokens''
       = Num (Fin 2000)
   \<and> updateApiSettings numberOf numberOf apiPatch defaultAdminSettings ''temperature''
       = Num (Fin 0)
   \<and> updateApiSettings numberOf numberOf apiPatch defaultAdminSettings ''similarityThreshold''
       = Num (Fin (1 / 2))
   \<and> updateApiSettings numberOf numberOf apiPatch defaultAdminSettings ''maxTrainingExamples''
       = Num (Fin 3)
   \<and> updateApiSettings numberOf numberOf apiPatch defaultAdminSettings ''systemPrompt''
       = defaultAdminSettings ''systemPrompt''
   \<and> fst (ragSettingsHandler apiPatch (defaultRagSettings, defaultAdminSettings)) ''systemPrompt''
       = Undefined
   \<and> snd (ragSettingsHandler apiPatch (defaultRagSettings, defaultAdminSettings)) ''systemPrompt''
       = defaultAdminSettings ''systemPrompt''
   \<and> updateApiSettings numberOf numberOf halfThresholdPatch defaultAdminSettings
        ''similarityThreshold'' = Num (Fin (1 / 2))
   \<and> emptyObject ''similarityThreshold'' = Undefined
   \<and> snd (ragSettingsHandler emptyObject
             (defaultRagSettings,
              updateApiSettings numberOf numberOf halfThresholdPatch defaultAdminSettings))
        ''similarityThreshold'' = Num (Fin (7 / 10))"
proof -
  have z: "zeroThresholdPatch ''similarityThreshold'' = Num (Fin 0)"
    "zeroThresholdPatch ''mode'' = Undefined"
    by (simp_all add: zeroThresholdPatch_def emptyObject_def)
  have a: "apiPatch ''claudeModel'' = Str ''claude-3-opus''"
    "apiPatch ''maxTokens'' = Num (Fin 2000)"
    "apiPatch ''temperature'' = Num (Fin 0)"
    "apiPatch ''similarityThreshold'' = Num (Fin (1 / 2))"
    "apiPatch ''maxTrainingExamples'' = Num (Fin 3)"
    "apiPatch ''systemPrompt'' = Undefined"
    by (simp_all add: apiPatch_def emptyObject_def)
  have h: "halfThresholdPatch ''similarityThreshold'' = Num (Fin (1 / 2))"
    by (simp add: halfThresholdPatch_def)
  have e: "emptyObject ''similarityThreshold'' = Undefined"
    by (simp add: emptyObject_def)
  have d: "defaultRagSettings ''mode'' = Str ''learning''"
    "defaultRagSettings ''similarityThreshold'' = Num (Fin (7 / 10))"
    by (simp_all add: defaultRagSettings_def defaultAdminSettings_def)
  from settings_merge [of zeroThresholdPatch "''mode''" numberOf numberOf defaultAdminSettings
         defaultRagSettings]
       settings_merge [of apiPatch "''systemPrompt''" numberOf numberOf defaultAdminSettings
         defaultRagSettings]
       settings_merge [of halfThresholdPatch "''mode''" numberOf numberOf defaultAdminSettings
         defaultRagSettings]
       settings_merge [of emptyObject "''mode''" numberOf numberOf
         "updateApiSettings numberOf numberOf halfThresholdPatch defaultAdminSettings"
         defaultRagSettings]
       z a h e d
  show ?thesis by (simp add: mergeField_def numberOf_def)
qed

text \<open>
  The two handlers differ on a numeric zero: \<^verbatim>\<open>if (similarityThreshold)\<close> of
  \<^verbatim>\<open>/admin/update-api-settings\<close> skips it, where \<^verbatim>\<open>/admin/rag-settings\<close> stores it.
\<close>

lemma updateApiSettings_zero_threshold:
  "updateApiSettings numberOf numberOf zeroThresholdPatch defaultAdminSettings ''similarityThreshold''
   = Num (Fin (7 / 10))"
  by (simp add: api_similarityThreshold zeroThresholdPatch_def defaultAdminSettings_def)

subsection \<open>The chunker\<close>

lemma trim_eq_Nil: "trim s = [] \<longleftrightarrow> blank s"
proof -
  have "trim s = [] \<longleftrightarrow> (\<forall>c\<in>set (dropWhile isWhiteSpace s). isWhiteSpace c)"
    by (simp add: trim_def trimEnd_def trimStart_def dropWhile_eq_Nil_conv del: set_rev)
       (simp only: set_rev)
  also have "\<dots> \<longleftrightarrow> dropWhile isWhiteSpace s = []"
    using hd_dropWhile [of isWhiteSpace s]
    by (cases "dropWhile isWhiteSpace s") (auto dest: set_dropWhileD)
  also have "\<dots> \<longleftrightarrow> blank s"
    by (simp add: dropWhile_eq_Nil_conv blank_def list_all_iff)
  finally show ?thesis .
qed

lemma not_ws_dot: "\<not> isWhiteSpace CHR ''.''"
  by (simp add: isWhiteSpace_def)

lemma ws_space: "isWhiteSpace CHR '' ''"
  by (simp add: isWhiteSpace_def)

lemma term_dot: "isTerminator CHR ''.''"
  by (simp add: isTerminator_def)

lemma not_term_space: "\<not> isTerminator CHR '' ''"
  by (simp add: isTerminator_def)

lemma trimEnd_dot_space: "trimEnd (y @ ''. '') = y @ ''.''"
  by (simp add: trimEnd_def not_ws_dot ws_space)

lemma trimStart_append: "\<not> blank x \<Longrightarrow> trimStart (x @ y) = trimStart x @ y"
  by (auto simp: trimStart_def blank_def list_all_iff dropWhile_append)

lemma trim_sentence: "\<not> blank x \<Longrightarrow> trim (x @ ''. '') = trimStart x @ ''.''"
  using trimEnd_dot_space [of "trimStart x"] by (simp add: trim_def trimStart_append)

lemma blank_append [simp]: "blank (x @ y) \<longleftrightarrow> blank x \<and> blank y"
  by (auto simp: blank_def)

lemma not_blank_dot [simp]: "\<not> blank (x @ ''. '')"
  by (simp add: blank_def not_ws_dot)

lemma trim_trimStart: "trim (trimStart s) = trim s"
  by (simp add: trim_def trimStart_def)

lemma trim_space: "trim (CHR '' '' # s) = trim s"
  by (simp add: trim_def trimStart_def ws_space)

lemma num_lt_mono: "\<not> num_lt (Fin a) m \<Longrightarrow> a \<le> b \<Longrightarrow> \<not> num_lt (Fin b) m"
  by (cases m) auto

lemma foldl_chunkStep:
  "(case foldl (chunkStep m) (chunks, cur) ss of (cs, c) \<Rightarrow> pushChunk cs c)
   = chunks @ greedyChunks m cur ss"
proof (induction ss arbitrary: chunks cur)
  case Nil
  show ?case by (simp add: pushChunk_def)
next
  case (Cons s ss)
  show ?case
  proof (cases "num_lt (Fin (real (length cur + length s))) m")
    case True
    then have "chunkStep m (chunks, cur) s = (chunks, cur @ s @ ''. '')"
      by (simp add: chunkStep_def)
    then show ?thesis using Cons [of chunks "cur @ s @ ''. ''"] True by simp
  next
    case False
    then have "chunkStep m (chunks, cur) s = (pushChunk chunks cur, s @ ''. '')"
      by (simp add: chunkStep_def)
    then show ?thesis using Cons [of "pushChunk chunks cur" "s @ ''. ''"] False
      by (simp add: pushChunk_def)
  qed
qed

lemma splitIntoChunks_as_greedy:
  "splitIntoChunks text m = greedyChunks m [] (sentencesOf text)"
  using foldl_chunkStep [of m "[]" "[]" "sentencesOf text"] by (simp add: splitIntoChunks_def)

lemma greedyChunks_nonempty: "c \<in> set (greedyChunks m cur ss) \<Longrightarrow> c \<noteq> []"
  by (induction ss arbitrary: cur) (auto split: if_splits)

lemma oversized_alone:
  assumes "\<not> blank s" "\<not> num_lt (of_length s) m"
  shows "trim (s @ ''. '') \<in> set (greedyChunks m (s @ ''. '') ss)"
proof (cases ss)
  case Nil
  then show ?thesis using assms by (simp add: trim_eq_Nil)
next
  case (Cons s' rest)
  have "\<not> num_lt (Fin (real (length (s @ ''. '') + length s'))) m"
    using assms(2) by (rule num_lt_mono [of "real (length s)", unfolded of_length_def [symmetric]]) simp
  then show ?thesis using Cons assms by (simp add: trim_eq_Nil)
qed

lemma oversized_emitted:
  assumes "s \<in> set ss" "\<not> blank s" "\<not> num_lt (of_length s) m"
  shows "trim (s @ ''. '') \<in> set (greedyChunks m cur ss)"
  using assms(1)
proof (induction ss arbitrary: cur)
  case Nil
  then show ?case by simp
next
  case (Cons a ss)
  show ?case
  proof (cases "a = s")
    case True
    have "\<not> num_lt (Fin (real (length cur + length s))) m"
      using assms(3) by (rule num_lt_mono [of "real (length s)", unfolded of_length_def [symmetric]]) simp
    then show ?thesis using True oversized_alone [OF assms(2,3), of ss] by simp
  next
    case False
    then have "s \<in> set ss" using Cons.prems by simp
    then show ?thesis using Cons.IH by simp
  qed
qed

lemma splitTerminators_unfold:
  "splitTerminators s =
     (if dropWhile (\<lambda>c. \<not> isTerminator c) s = [] then [takeWhile (\<lambda>c. \<not> isTerminator c) s]
      else takeWhile (\<lambda>c. \<not> isTerminator c) s
           # splitTerminators (dropWhile isTerminator (dropWhile (\<lambda>c. \<not> isTerminator c) s)))"
  by (subst splitTerminators.simps) (simp only: Let_def)

lemma split_last:
  "dropWhile (\<lambda>c. \<not> isTerminator c) s = [] \<Longrightarrow>
   splitTerminators s = [takeWhile (\<lambda>c. \<not> isTerminator c) s]"
  by (subst splitTerminators_unfold) (simp only: refl if_True)

lemma split_more:
  "dropWhile (\<lambda>c. \<not> isTerminator c) s \<noteq> [] \<Longrightarrow>
   splitTerminators s = takeWhile (\<lambda>c. \<not> isTerminator c) s
      # splitTerminators (dropWhile isTerminator (dropWhile (\<lambda>c. \<not> isTerminator c) s))"
  by (subst splitTerminators_unfold) (simp only: if_False)

lemma takeWhile_terminatorFree: "terminatorFree (takeWhile (\<lambda>c. \<not> isTerminator c) s)"
  by (auto simp: terminatorFree_def list_all_iff dest: set_takeWhileD)

lemma splitTerminators_terminatorFree:
  "p \<in> set (splitTerminators s) \<Longrightarrow> terminatorFree p"
proof (induction s arbitrary: p rule: splitTerminators.induct)
  case (1 s)
  show ?case
  proof (cases "dropWhile (\<lambda>c. \<not> isTerminator c) s = []")
    case True
    from "1.prems" have "p = takeWhile (\<lambda>c. \<not> isTerminator c) s"
      by (simp only: split_last [OF True] list.set singleton_iff empty_iff insert_iff) simp
    then show ?thesis by (simp only: takeWhile_terminatorFree)
  next
    case False
    from "1.prems" have "p = takeWhile (\<lambda>c. \<not> isTerminator c) s
        \<or> p \<in> set (splitTerminators (dropWhile isTerminator (dropWhile (\<lambda>c. \<not> isTerminator c) s)))"
      by (simp only: split_more [OF False] list.set insert_iff)
    then show ?thesis
      using "1.IH" [OF refl refl False] takeWhile_terminatorFree by blast
  qed
qed

lemma filter_takeWhile_nonterm:
  "filter (\<lambda>c. \<not> isTerminator c) (takeWhile (\<lambda>c. \<not> isTerminator c) s)
   = takeWhile (\<lambda>c. \<not> isTerminator c) s"
  by (auto simp: filter_id_conv dest: set_takeWhileD)

lemma filter_dropWhile_term:
  "filter (\<lambda>c. \<not> isTerminator c) (dropWhile isTerminator r) = filter (\<lambda>c. \<not> isTerminator c) r"
  by (induction r) auto

lemma filter_split_step:
  "filter (\<lambda>c. \<not> isTerminator c) s
   = takeWhile (\<lambda>c. \<not> isTerminator c) s
     @ filter (\<lambda>c. \<not> isTerminator c) (dropWhile isTerminator (dropWhile (\<lambda>c. \<not> isTerminator c) s))"
proof -
  have "filter (\<lambda>c. \<not> isTerminator c) s
        = filter (\<lambda>c. \<not> isTerminator c)
            (takeWhile (\<lambda>c. \<not> isTerminator c) s @ dropWhile (\<lambda>c. \<not> isTerminator c) s)"
    by (simp only: takeWhile_dropWhile_id)
  then show ?thesis
    by (simp only: filter_append filter_takeWhile_nonterm filter_dropWhile_term)
qed

lemma concat_splitTerminators:
  "concat (splitTerminators s) = filter (\<lambda>c. \<not> isTerminator c) s"
proof (induction s rule: splitTerminators.induct)
  case (1 s)
  show ?case
  proof (cases "dropWhile (\<lambda>c. \<not> isTerminator c) s = []")
    case True
    have "filter (\<lambda>c. \<not> isTerminator c) s = takeWhile (\<lambda>c. \<not> isTerminator c) s"
      using filter_split_step [of s] True by simp
    then show ?thesis by (simp add: split_last [OF True])
  next
    case False
    show ?thesis
      using "1.IH" [OF refl refl False] filter_split_step [of s]
      by (simp add: split_more [OF False])
  qed
qed

lemma sentencesOf_props:
  "s \<in> set (sentencesOf text) \<Longrightarrow> \<not> blank s \<and> terminatorFree s"
  by (auto simp: sentencesOf_def trim_eq_Nil splitTerminators_terminatorFree)

lemma suffix_trimStart_append:
  assumes "\<not> blank s"
  shows "suffix (trimStart s) (trimStart (x @ s))"
proof (cases "blank x")
  case True
  then have "trimStart (x @ s) = trimStart s"
    by (simp add: trimStart_def blank_def list_all_iff dropWhile_append)
  then show ?thesis by simp
next
  case False
  then have "trimStart (x @ s) = trimStart x @ s" by (rule trimStart_append)
  moreover have "suffix (trimStart s) s"
    by (simp add: trimStart_def suffix_dropWhile)
  ultimately show ?thesis by (simp add: suffix_append)
qed

lemma trailing_emitted:
  assumes "ss \<noteq> []" "\<forall>s\<in>set ss. \<not> blank s"
  shows "greedyChunks m cur ss \<noteq> []
       \<and> suffix (trimStart (last ss) @ ''.'') (last (greedyChunks m cur ss))"
  using assms
proof (induction ss arbitrary: cur)
  case Nil
  then show ?case by simp
next
  case (Cons s ss)
  then have nb: "\<not> blank s" by simp
  show ?case
  proof (cases "ss = []")
    case True
    have a: "trim ((cur @ s) @ ''. '') = trimStart (cur @ s) @ ''.''"
      using nb by (intro trim_sentence) simp
    have b: "trim (s @ ''. '') = trimStart s @ ''.''"
      using nb by (rule trim_sentence)
    have c: "suffix (trimStart s @ ''.'') (trimStart (cur @ s) @ ''.'')"
      using suffix_trimStart_append [OF nb, of cur] by simp
    show ?thesis
    proof (cases "num_lt (Fin (real (length cur + length s))) m")
      case lt: True
      then have "greedyChunks m cur (s # ss) = [trimStart (cur @ s) @ ''.'']"
        using True a by simp
      then show ?thesis using True c by simp
    next
      case ge: False
      then have "greedyChunks m cur (s # ss)
                 = (if trim cur = [] then [] else [trim cur]) @ [trimStart s @ ''.'']"
        using True b by simp
      then show ?thesis using True by simp
    qed
  next
    case False
    have ih: "greedyChunks m c ss \<noteq> []
       \<and> suffix (trimStart (last ss) @ ''.'') (last (greedyChunks m c ss))" for c
      using Cons.IH [OF False] Cons.prems by simp
    have l: "last (s # ss) = last ss" using False by simp
    show ?thesis
    proof (cases "num_lt (Fin (real (length cur + length s))) m")
      case True
      then have "greedyChunks m cur (s # ss) = greedyChunks m (cur @ s @ ''. '') ss"
        by simp
      then show ?thesis using ih [of "cur @ s @ ''. ''"] l by (simp only:) simp
    next
      case ge: False
      then obtain pre where "greedyChunks m cur (s # ss) = pre @ greedyChunks m (s @ ''. '') ss"
        by simp
      then show ?thesis using ih [of "s @ ''. ''"] l by (simp only:) simp
    qed
  qed
qed

lemma joinSentences_Cons: "joinSentences (s # g) = s @ ''. '' @ joinSentences g"
  by (simp add: joinSentences_def)

lemma joinSentences_snoc: "joinSentences (g @ [s]) = joinSentences g @ s @ ''. ''"
  by (simp add: joinSentences_def)

lemma joinSentences_pieces:
  "joinSentences (s1 # rest) = concat (map withDot (s1 # map spaced rest)) @ '' ''"
proof (induction rest arbitrary: s1)
  case Nil
  show ?case by (simp add: joinSentences_def withDot_def)
next
  case (Cons s2 r)
  have "joinSentences (s1 # s2 # r) = s1 @ ''. '' @ joinSentences (s2 # r)"
    by (rule joinSentences_Cons)
  also have "\<dots> = s1 @ ''. '' @ concat (map withDot (s2 # map spaced r)) @ '' ''"
    by (simp only: Cons)
  also have "\<dots> = concat (map withDot (s1 # map spaced (s2 # r))) @ '' ''"
    by (simp add: withDot_def spaced_def)
  finally show ?case .
qed

lemma concat_withDot_ends:
  "qs \<noteq> [] \<Longrightarrow> \<exists>w. concat (map withDot qs) = w @ ''.''"
proof (induction qs rule: rev_induct)
  case Nil
  then show ?case by simp
next
  case (snoc q qs)
  have "concat (map withDot (qs @ [q])) = (concat (map withDot qs) @ q) @ ''.''"
    by (simp add: withDot_def)
  then show ?case by blast
qed

lemma trim_joinSentences:
  assumes "\<not> blank s1"
  shows "trim (joinSentences (s1 # rest)) = concat (map withDot (trimStart s1 # map spaced rest))"
proof -
  let ?Y = "concat (map withDot (map spaced rest))"
  have j: "joinSentences (s1 # rest) = s1 @ (''.'' @ ?Y @ '' '')"
    by (simp add: joinSentences_pieces withDot_def)
  have "trimStart (joinSentences (s1 # rest)) = trimStart s1 @ (''.'' @ ?Y @ '' '')"
    unfolding j using assms by (rule trimStart_append)
  also have "\<dots> = concat (map withDot (trimStart s1 # map spaced rest)) @ '' ''"
    by (simp add: withDot_def)
  finally have t: "trimStart (joinSentences (s1 # rest))
                   = concat (map withDot (trimStart s1 # map spaced rest)) @ '' ''" .
  obtain w where w: "concat (map withDot (trimStart s1 # map spaced rest)) = w @ ''.''"
    using concat_withDot_ends [of "trimStart s1 # map spaced rest"] by auto
  have "trimEnd ((w @ ''.'') @ '' '') = w @ ''.''"
    using trimEnd_dot_space [of w] by simp
  then show ?thesis by (simp only: trim_def t w)
qed

lemma dropWhile_terminator_pieces:
  assumes "\<forall>p\<in>set ps. p \<noteq> [] \<and> terminatorFree p"
  shows "dropWhile isTerminator (concat (map withDot ps)) = concat (map withDot ps)"
proof (cases ps)
  case Nil
  then show ?thesis by simp
next
  case (Cons p ps')
  then obtain c cs where "p = c # cs" "\<not> isTerminator c"
    using assms by (cases p) (auto simp: terminatorFree_def)
  then show ?thesis using Cons by (simp add: withDot_def)
qed

lemma splitTerminators_pieces:
  assumes "\<forall>p\<in>set ps. p \<noteq> [] \<and> terminatorFree p"
  shows "splitTerminators (concat (map withDot ps)) = ps @ [[]]"
  using assms
proof (induction ps)
  case Nil
  show ?case using split_last [of "[]"] by simp
next
  case (Cons p ps)
  let ?R = "concat (map withDot ps)"
  have tf: "\<forall>c\<in>set p. \<not> isTerminator c"
    using Cons.prems by (simp add: terminatorFree_def list_all_iff)
  have e: "concat (map withDot (p # ps)) = p @ CHR ''.'' # ?R"
    by (simp add: withDot_def)
  have tw: "takeWhile (\<lambda>c. \<not> isTerminator c) (p @ CHR ''.'' # ?R) = p"
    using tf by (simp add: takeWhile_append2 term_dot)
  have dw: "dropWhile (\<lambda>c. \<not> isTerminator c) (p @ CHR ''.'' # ?R) = CHR ''.'' # ?R"
    using tf by (simp add: dropWhile_append2 term_dot)
  have dt: "dropWhile isTerminator (CHR ''.'' # ?R) = ?R"
    using dropWhile_terminator_pieces [of ps] Cons.prems by (simp add: term_dot)
  have ne: "dropWhile (\<lambda>c. \<not> isTerminator c) (p @ CHR ''.'' # ?R) \<noteq> []"
    by (simp only: dw) simp
  have "splitTerminators (p @ CHR ''.'' # ?R) = p # splitTerminators ?R"
    using split_more [OF ne] by (simp only: tw dw dt)
  then have "splitTerminators (concat (map withDot (p # ps))) = p # splitTerminators ?R"
    by (simp only: e)
  also have "splitTerminators ?R = ps @ [[]]"
    using Cons.IH Cons.prems by simp
  finally show ?case by simp
qed

lemma chunk_sentences:
  assumes "\<not> blank s1" "terminatorFree s1" "\<forall>s\<in>set rest. \<not> blank s \<and> terminatorFree s"
  shows "map trim (sentencesOf (trim (joinSentences (s1 # rest)))) = map trim (s1 # rest)"
proof -
  let ?ps = "trimStart s1 # map spaced rest"
  have nb1: "\<not> blank (trimStart s1)"
    using assms(1) trim_eq_Nil [of "trimStart s1"] trim_eq_Nil [of s1] by (simp add: trim_trimStart)
  have tf1: "terminatorFree (trimStart s1)"
    using assms(2) by (auto simp: terminatorFree_def trimStart_def list_all_iff dest: set_dropWhileD)
  have good: "\<forall>p\<in>set ?ps. p \<noteq> [] \<and> terminatorFree p"
    using nb1 tf1 assms(3) by (auto simp: spaced_def terminatorFree_def not_term_space blank_def)
  have nbs: "\<forall>p\<in>set ?ps. \<not> blank p"
    using nb1 assms(3) by (auto simp: spaced_def blank_def)
  have "sentencesOf (trim (joinSentences (s1 # rest))) = filter (\<lambda>s. \<not> blank s) (?ps @ [[]])"
    using splitTerminators_pieces [OF good]
    by (simp add: sentencesOf_def trim_joinSentences [OF assms(1)] trim_eq_Nil)
  also have "\<dots> = ?ps"
    using nbs by (simp add: blank_def filter_id_conv)
  finally have "sentencesOf (trim (joinSentences (s1 # rest))) = ?ps" .
  moreover have "map trim ?ps = map trim (s1 # rest)"
    by (simp add: trim_trimStart spaced_def trim_space)
  ultimately show ?thesis by simp
qed

lemma emitted_sentences:
  assumes "\<forall>s\<in>set g. \<not> blank s \<and> terminatorFree s"
  shows "concat (map (\<lambda>c. map trim (sentencesOf c)) (emitted g)) = map trim g"
proof (cases g)
  case Nil
  then show ?thesis by (simp add: emitted_def joinSentences_def trim_def trimStart_def trimEnd_def)
next
  case (Cons s1 rest)
  then have a: "\<not> blank s1" "terminatorFree s1" "\<forall>s\<in>set rest. \<not> blank s \<and> terminatorFree s"
    using assms by simp_all
  have "\<not> blank (joinSentences (s1 # rest))"
    using a(1) by (simp add: joinSentences_Cons)
  then have "emitted g = [trim (joinSentences (s1 # rest))]"
    using Cons by (simp add: emitted_def trim_eq_Nil)
  then show ?thesis using chunk_sentences [OF a] Cons by simp
qed

lemma greedyChunks_sentences:
  assumes "\<forall>s\<in>set (g @ ss). \<not> blank s \<and> terminatorFree s"
  shows "concat (map (\<lambda>c. map trim (sentencesOf c)) (greedyChunks m (joinSentences g) ss))
         = map trim g @ map trim ss"
  using assms
proof (induction ss arbitrary: g)
  case Nil
  have "greedyChunks m (joinSentences g) [] = emitted g"
    by (simp add: emitted_def)
  then show ?case using emitted_sentences [of g] Nil by simp
next
  case (Cons s ss)
  show ?case
  proof (cases "num_lt (Fin (real (length (joinSentences g) + length s))) m")
    case True
    then have "greedyChunks m (joinSentences g) (s # ss)
               = greedyChunks m (joinSentences (g @ [s])) ss"
      by (simp add: joinSentences_snoc)
    then show ?thesis using Cons.IH [of "g @ [s]"] Cons.prems by simp
  next
    case False
    then have "greedyChunks m (joinSentences g) (s # ss)
               = emitted g @ greedyChunks m (joinSentences [s]) ss"
      by (simp add: emitted_def joinSentences_def)
    then show ?thesis
      using Cons.IH [of "[s]"] Cons.prems emitted_sentences [of g] by simp
  qed
qed

text \<open>
  Claim C2. \<^verbatim>\<open>splitIntoChunks\<close> computes the greedy grouping of the specification over
  the sentences of the text. The pieces that \<^verbatim>\<open>split\<close> cuts hold no terminator and
  together are the text without its terminators; the sentences are the pieces that are
  not blank. When there is a sentence there is a chunk, and the last chunk ends with
  the last sentence (the trailing chunk is emitted); a sentence that is not shorter
  than the bound is a chunk on its own, unsplit: the sentence without its leading
  white space, followed by a full stop.
\<close>

theorem splitIntoChunks_greedy_chunks:
  "splitIntoChunks text maxChunkSize = greedyChunks maxChunkSize [] (sentencesOf text)
   \<and> concat (splitTerminators text) = filter (\<lambda>c. \<not> isTerminator c) text
   \<and> sentencesOf text = filter (\<lambda>s. \<not> blank s) (splitTerminators text)
   \<and> (\<forall>s\<in>set (splitTerminators text). terminatorFree s)
   \<and> (sentencesOf text \<noteq> [] \<longrightarrow>
        splitIntoChunks text maxChunkSize \<noteq> []
        \<and> suffix (trimStart (last (sentencesOf text)) @ ''.'')
                 (last (splitIntoChunks text maxChunkSize)))
   \<and> (\<forall>s\<in>set (sentencesOf text).
        \<not> num_lt (of_length s) maxChunkSize \<longrightarrow>
        trimStart s @ ''.'' \<in> set (splitIntoChunks text maxChunkSize))"
proof -
  have nb: "\<forall>s\<in>set (sentencesOf text). \<not> blank s"
    using sentencesOf_props by blast
  have "sentencesOf text \<noteq> [] \<longrightarrow>
        splitIntoChunks text maxChunkSize \<noteq> []
        \<and> suffix (trimStart (last (sentencesOf text)) @ ''.'')
                 (last (splitIntoChunks text maxChunkSize))"
    using trailing_emitted [OF _ nb, of maxChunkSize "[]"]
    by (simp add: splitIntoChunks_as_greedy)
  moreover have "\<forall>s\<in>set (sentencesOf text).
        \<not> num_lt (of_length s) maxChunkSize \<longrightarrow>
        trimStart s @ ''.'' \<in> set (splitIntoChunks text maxChunkSize)"
    using oversized_emitted [of _ "sentencesOf text" maxChunkSize "[]"] nb trim_sentence
    by (simp add: splitIntoChunks_as_greedy)
  moreover have "sentencesOf text = filter (\<lambda>s. \<not> blank s) (splitTerminators text)"
    by (simp add: sentencesOf_def trim_eq_Nil)
  ultimately show ?thesis
    using splitIntoChunks_as_greedy concat_splitTerminators splitTerminators_terminatorFree
    by blast
qed

text \<open>
  Claim C8. No chunk is the empty string, and the chunks give the sentences of the
  text back: the sentences of the chunks, read in order and trimmed, are the trimmed
  sentences of the text, as a sequence and hence as a set. Trimming is what "modulo
  the separators" means here: a chunk loses the white space in front of its first
  sentence and gains a space after each full stop it inserts.
\<close>

theorem splitIntoChunks_reconstructs:
  "(\<forall>c\<in>set (splitIntoChunks text n). c \<noteq> [])
   \<and> concat (map (\<lambda>c. map trim (sentencesOf c)) (splitIntoChunks text n))
     = map trim (sentencesOf text)
   \<and> (\<Union>c\<in>set (splitIntoChunks text n). set (map trim (sentencesOf c)))
     = set (map trim (sentencesOf text))"
proof -
  have a: "\<forall>c\<in>set (splitIntoChunks text n). c \<noteq> []"
    using greedyChunks_nonempty by (auto simp: splitIntoChunks_as_greedy)
  have b: "concat (map (\<lambda>c. map trim (sentencesOf c)) (splitIntoChunks text n))
     = map trim (sentencesOf text)"
    using greedyChunks_sentences [of "[]" "sentencesOf text" n] sentencesOf_props
    by (simp add: splitIntoChunks_as_greedy joinSentences_def)
  have "(\<Union>c\<in>set (splitIntoChunks text n). set (map trim (sentencesOf c)))
        = set (concat (map (\<lambda>c. map trim (sentencesOf c)) (splitIntoChunks text n)))"
    by simp
  then have c: "(\<Union>c\<in>set (splitIntoChunks text n). set (map trim (sentencesOf c)))
     = set (map trim (sentencesOf text))"
    by (simp only: b)
  from a b c show ?thesis by blast
qed

text \<open>A text of three sentences, chunked with the bounds 30 and 12.\<close>

lemma sample_sentences:
  "sentencesOf ''Adoption grew. Share fell!! Growth held?'' = [''Adoption grew'', '' Share fell'', '' Growth held'']"
  by code_simp

lemma sample_chunks_30:
  "splitIntoChunks ''Adoption grew. Share fell!! Growth held?'' (Fin 30)
   = [''Adoption grew.  Share fell.'', ''Growth held.'']"
  by (simp add: splitIntoChunks_def sample_sentences chunkStep_def pushChunk_def trim_def
      trimStart_def trimEnd_def isWhiteSpace_def)

lemma sample_chunks_12:
  "splitIntoChunks ''Adoption grew. Share fell!! Growth held?'' (Fin 12)
   = [''Adoption grew.'', ''Share fell.'', ''Growth held.'']"
  by (simp add: splitIntoChunks_def sample_sentences chunkStep_def pushChunk_def trim_def
      trimStart_def trimEnd_def isWhiteSpace_def)

theorem splitIntoChunks_greedy_chunks_witness:
  "sentencesOf ''Adoption grew. Share fell!! Growth held?'' \<noteq> []
   \<and> '' Growth held'' = last (sentencesOf ''Adoption grew. Share fell!! Growth held?'')
   \<and> ''Adoption grew'' \<in> set (sentencesOf ''Adoption grew. Share fell!! Growth held?'')
   \<and> \<not> num_lt (of_length ''Adoption grew'') (Fin 12)
   \<and> splitIntoChunks ''Adoption grew. Share fell!! Growth held?'' (Fin 12)
       = [''Adoption grew.'', ''Share fell.'', ''Growth held.'']
   \<and> splitIntoChunks ''Adoption grew. Share fell!! Growth held?'' (Fin 12)
       = greedyChunks (Fin 12) [] (sentencesOf ''Adoption grew. Share fell!! Growth held?'')
   \<and> suffix (trimStart '' Growth held'' @ ''.'')
        (last (splitIntoChunks ''Adoption grew. Share fell!! Growth held?'' (Fin 12)))
   \<and> trimStart ''Adoption grew'' @ ''.''
        \<in> set (splitIntoChunks ''Adoption grew. Share fell!! Growth held?'' (Fin 12))"
proof -
  have h1: "sentencesOf ''Adoption grew. Share fell!! Growth held?'' \<noteq> []"
    by (simp add: sample_sentences)
  have h2: "'' Growth held'' = last (sentencesOf ''Adoption grew. Share fell!! Growth held?'')"
    by (simp add: sample_sentences)
  have h3: "''Adoption grew'' \<in> set (sentencesOf ''Adoption grew. Share fell!! Growth held?'')"
    by (simp add: sample_sentences)
  have h4: "\<not> num_lt (of_length ''Adoption grew'') (Fin 12)"
    by (simp add: of_length_def)
  from splitIntoChunks_greedy_chunks [of "''Adoption grew. Share fell!! Growth held?''" "Fin 12"]
       h1 h2 h3 h4 sample_chunks_12
  show ?thesis by metis
qed

theorem splitIntoChunks_reconstructs_witness:
  "''Growth held.'' \<in> set (splitIntoChunks ''Adoption grew. Share fell!! Growth held?'' (Fin 30))
   \<and> ''Growth held.'' \<noteq> []
   \<and> splitIntoChunks ''Adoption grew. Share fell!! Growth held?'' (Fin 30)
       = [''Adoption grew.  Share fell.'', ''Growth held.'']
   \<and> map trim (sentencesOf ''Adoption grew. Share fell!! Growth held?'')
       = [''Adoption grew'', ''Share fell'', ''Growth held'']
   \<and> concat (map (\<lambda>c. map trim (sentencesOf c))
               (splitIntoChunks ''Adoption grew. Share fell!! Growth held?'' (Fin 30)))
       = [''Adoption grew'', ''Share fell'', ''Growth held'']"
proof -
  have h1: "''Growth held.'' \<in> set (splitIntoChunks ''Adoption grew. Share fell!! Growth held?'' (Fin 30))"
    by (simp add: sample_chunks_30)
  have h2: "map trim (sentencesOf ''Adoption grew. Share fell!! Growth held?'')
       = [''Adoption grew'', ''Share fell'', ''Growth held'']"
    by (simp add: sample_sentences trim_def trimStart_def trimEnd_def isWhiteSpace_def)
  from splitIntoChunks_reconstructs [of "''Adoption grew. Share fell!! Growth held?''" "Fin 30"]
       h1 h2 sample_chunks_30
  show ?thesis by metis
qed

end
